theory Spec2Isabelle
  imports Complex_Main "HOL-Library.AList"
begin

section \<open>Strings\<close>

text \<open>
  A JavaScript string is a sequence of UTF-16 code units. It is modelled as the list of
  its code units, each a natural number; \<open>ascii\<close> turns an Isabelle string literal into
  such a list, so that \<open>ascii ''{''\<close> is \<open>[123]\<close>.
\<close>

type_synonym jsstring = "nat list"

definition ascii :: "string \<Rightarrow> jsstring" where
  "ascii s = map of_char s"

text \<open>A whole number in a template string or a JSON text: its decimal digits.\<close>

fun show_nat :: "nat \<Rightarrow> jsstring" where
  "show_nat n = (if n < 10 then [48 + n] else show_nat (n div 10) @ [48 + n mod 10])"

declare show_nat.simps [simp del]

definition LBRACE :: nat where "LBRACE = 123"
definition RBRACE :: nat where "RBRACE = 125"

section \<open>The built-in \<open>JSON.parse\<close>\<close>

text \<open>
  \<open>src/lib/ai.ts\<close> calls the language's \<open>JSON.parse\<close>. It is modelled by a
  recursive-descent parser for the JSON grammar (ECMA-404): \<open>None\<close> stands for the
  \<open>SyntaxError\<close> the built-in throws. A number is kept as the exact value of its decimal
  literal (the rounding to a double is not modelled); an object is the list of its
  properties in the order of their first occurrence, a repeated key overwriting the
  earlier value as the built-in does (that an engine lists index-like names first is not
  modelled).
\<close>

datatype json =
    JNull
  | JBool bool
  | JNumber rat
  | JString jsstring
  | JArray "json list"
  | JObject "(jsstring \<times> json) list"

definition is_ws :: "nat \<Rightarrow> bool" where
  "is_ws c \<longleftrightarrow> c = 32 \<or> c = 9 \<or> c = 10 \<or> c = 13"

definition skip_ws :: "jsstring \<Rightarrow> jsstring" where
  "skip_ws s = dropWhile is_ws s"

definition is_digit :: "nat \<Rightarrow> bool" where
  "is_digit c \<longleftrightarrow> 48 \<le> c \<and> c \<le> 57"

definition dec_value :: "jsstring \<Rightarrow> nat" where
  "dec_value ds = foldl (\<lambda>acc c. 10 * acc + (c - 48)) 0 ds"

definition hex_digit :: "nat \<Rightarrow> nat option" where
  "hex_digit c =
     (if 48 \<le> c \<and> c \<le> 57 then Some (c - 48)
      else if 65 \<le> c \<and> c \<le> 70 then Some (c - 55)
      else if 97 \<le> c \<and> c \<le> 102 then Some (c - 87)
      else None)"

definition hex4 :: "nat \<Rightarrow> nat \<Rightarrow> nat \<Rightarrow> nat \<Rightarrow> nat option" where
  "hex4 a b c d =
     (case (hex_digit a, hex_digit b, hex_digit c, hex_digit d) of
        (Some w, Some x, Some y, Some z) \<Rightarrow> Some (((w * 16 + x) * 16 + y) * 16 + z)
      | _ \<Rightarrow> None)"

text \<open>The single-character escapes \<open>\" \\ \/ \b \f \n \r \t\<close>.\<close>

definition unescape :: "nat \<Rightarrow> nat option" where
  "unescape e =
     (if e = 34 then Some 34 else if e = 92 then Some 92 else if e = 47 then Some 47
      else if e = 98 then Some 8 else if e = 102 then Some 12 else if e = 110 then Some 10
      else if e = 114 then Some 13 else if e = 116 then Some 9 else None)"

definition cons_result :: "'a \<Rightarrow> ('a list \<times> 'b) option \<Rightarrow> ('a list \<times> 'b) option" where
  "cons_result x r = (case r of None \<Rightarrow> None | Some (xs, rest) \<Rightarrow> Some (x # xs, rest))"

text \<open>
  The characters of a string literal after its opening quote, up to the closing quote:
  the decoded string and the text that follows.
\<close>

fun parse_chars :: "jsstring \<Rightarrow> (jsstring \<times> jsstring) option" where
  "parse_chars [] = None"
| "parse_chars (c # cs) =
     (if c = 34 then Some ([], cs)
      else if c = 92 then
        (case cs of
           [] \<Rightarrow> None
         | e # r \<Rightarrow>
             if e = 117 then
               (case r of
                  h1 # h2 # h3 # h4 # r' \<Rightarrow>
                    (case hex4 h1 h2 h3 h4 of
                       None \<Rightarrow> None
                     | Some u \<Rightarrow> cons_result u (parse_chars r'))
                | _ \<Rightarrow> None)
             else
               (case unescape e of
                  None \<Rightarrow> None
                | Some u \<Rightarrow> cons_result u (parse_chars r)))
      else if c < 32 then None
      else cons_result c (parse_chars cs))"

text \<open>The optional fraction and exponent of a number literal.\<close>

definition parse_frac :: "jsstring \<Rightarrow> (jsstring \<times> jsstring) option" where
  "parse_frac s =
     (case s of
        [] \<Rightarrow> Some ([], s)
      | c # r \<Rightarrow>
          if c = 46 then
            (if takeWhile is_digit r = [] then None
             else Some (takeWhile is_digit r, dropWhile is_digit r))
          else Some ([], s))"

definition parse_exp_digits :: "bool \<Rightarrow> jsstring \<Rightarrow> (int \<times> jsstring) option" where
  "parse_exp_digits neg s =
     (if takeWhile is_digit s = [] then None
      else Some ((if neg then - int (dec_value (takeWhile is_digit s))
                  else int (dec_value (takeWhile is_digit s))),
                 dropWhile is_digit s))"

definition parse_exp :: "jsstring \<Rightarrow> (int \<times> jsstring) option" where
  "parse_exp s =
     (case s of
        [] \<Rightarrow> Some (0, s)
      | c # r \<Rightarrow>
          if c = 101 \<or> c = 69 then
            (case r of
               [] \<Rightarrow> None
             | g # r' \<Rightarrow>
                 if g = 43 then parse_exp_digits False r'
                 else if g = 45 then parse_exp_digits True r'
                 else parse_exp_digits False r)
          else Some (0, s))"

definition scale10 :: "rat \<Rightarrow> int \<Rightarrow> rat" where
  "scale10 m e = (if 0 \<le> e then m * 10 ^ nat e else m / 10 ^ nat (- e))"

definition parse_unsigned :: "jsstring \<Rightarrow> (rat \<times> jsstring) option" where
  "parse_unsigned s =
     (let ip = (case s of [] \<Rightarrow> [] | c # r \<Rightarrow> if c = 48 then [c] else takeWhile is_digit s);
          s1 = drop (length ip) s
      in if ip = [] then None
         else
           (case parse_frac s1 of
              None \<Rightarrow> None
            | Some (fp, s2) \<Rightarrow>
                (case parse_exp s2 of
                   None \<Rightarrow> None
                 | Some (e, s3) \<Rightarrow>
                     Some (scale10 (of_nat (dec_value (ip @ fp))) (e - int (length fp)), s3))))"

definition parse_number :: "jsstring \<Rightarrow> (rat \<times> jsstring) option" where
  "parse_number s =
     (case s of
        [] \<Rightarrow> None
      | c # r \<Rightarrow>
          if c = 45 then
            (case parse_unsigned r of None \<Rightarrow> None | Some (q, rest) \<Rightarrow> Some (- q, rest))
          else parse_unsigned s)"

definition parse_literal :: "jsstring \<Rightarrow> json \<Rightarrow> jsstring \<Rightarrow> (json \<times> jsstring) option" where
  "parse_literal word v s =
     (if take (length word) s = word then Some (v, drop (length word) s) else None)"

text \<open>Properties are defined one after the other, a later one replacing an earlier one
  of the same name.\<close>

definition define_properties :: "(jsstring \<times> json) list \<Rightarrow> (jsstring \<times> json) list" where
  "define_properties ms = foldl (\<lambda>acc (k, v). AList.update k v acc) [] ms"

text \<open>
  The first argument bounds the number of nested calls; \<open>JSON_parse\<close> starts with more
  than twice the length of the text, which is never used up: from there on the result
  does not depend on the bound (see \<open>parse_value_fuel\<close>).
\<close>

fun parse_value :: "nat \<Rightarrow> jsstring \<Rightarrow> (json \<times> jsstring) option"
  and parse_elements :: "nat \<Rightarrow> jsstring \<Rightarrow> (json list \<times> jsstring) option"
  and parse_members :: "nat \<Rightarrow> jsstring \<Rightarrow> ((jsstring \<times> json) list \<times> jsstring) option"
where
  "parse_value 0 s = None"
| "parse_value (Suc n) s =
     (case skip_ws s of
        [] \<Rightarrow> None
      | c # r \<Rightarrow>
          if c = 123 then
            (case skip_ws r of
               [] \<Rightarrow> None
             | d # r' \<Rightarrow>
                 if d = 125 then Some (JObject [], r')
                 else
                   (case parse_members n (d # r') of
                      None \<Rightarrow> None
                    | Some (ms, rest) \<Rightarrow> Some (JObject (define_properties ms), rest)))
          else if c = 91 then
            (case skip_ws r of
               [] \<Rightarrow> None
             | d # r' \<Rightarrow>
                 if d = 93 then Some (JArray [], r')
                 else
                   (case parse_elements n (d # r') of
                      None \<Rightarrow> None
                    | Some (vs, rest) \<Rightarrow> Some (JArray vs, rest)))
          else if c = 34 then
            (case parse_chars r of
               None \<Rightarrow> None
             | Some (str, rest) \<Rightarrow> Some (JString str, rest))
          else if c = 116 then parse_literal (ascii ''true'') (JBool True) (c # r)
          else if c = 102 then parse_literal (ascii ''false'') (JBool False) (c # r)
          else if c = 110 then parse_literal (ascii ''null'') JNull (c # r)
          else
            (case parse_number (c # r) of
               None \<Rightarrow> None
             | Some (q, rest) \<Rightarrow> Some (JNumber q, rest)))"
| "parse_elements 0 s = None"
| "parse_elements (Suc n) s =
     (case parse_value n s of
        None \<Rightarrow> None
      | Some (v, r) \<Rightarrow>
          (case skip_ws r of
             [] \<Rightarrow> None
           | c # r' \<Rightarrow>
               if c = 93 then Some ([v], r')
               else if c = 44 then cons_result v (parse_elements n r')
               else None))"
| "parse_members 0 s = None"
| "parse_members (Suc n) s =
     (case skip_ws s of
        [] \<Rightarrow> None
      | q # r \<Rightarrow>
          if q = 34 then
            (case parse_chars r of
               None \<Rightarrow> None
             | Some (k, r1) \<Rightarrow>
                 (case skip_ws r1 of
                    [] \<Rightarrow> None
                  | c # r2 \<Rightarrow>
                      if c = 58 then
                        (case parse_value n r2 of
                           None \<Rightarrow> None
                         | Some (v, r3) \<Rightarrow>
                             (case skip_ws r3 of
                                [] \<Rightarrow> None
                              | d # r4 \<Rightarrow>
                                  if d = 125 then Some ([(k, v)], r4)
                                  else if d = 44 then cons_result (k, v) (parse_members n r4)
                                  else None))
                      else None))
          else None)"

definition JSON_parse :: "jsstring \<Rightarrow> json option" where
  "JSON_parse s =
     (case parse_value (Suc (2 * length s)) s of
        None \<Rightarrow> None
      | Some (v, rest) \<Rightarrow> if skip_ws rest = [] then Some v else None)"

section \<open>The built-in \<open>JSON.stringify\<close>\<close>

text \<open>
  The text \<open>JSON.stringify\<close> gives for a value, for the values whose text does not depend
  on doubles: a number has a text here when it is whole and at most \<open>2^53\<close> in size, where
  the built-in prints its exact digits (for fractions and beyond that size it prints the
  shortest digits of the double, which are not modelled); an object has one when its
  property names are distinct, as those of an object are. \<open>None\<close> says that the text is
  not modelled, not that the built-in gives none. The function serves only to show that
  the texts of such values are among the texts that \<open>JSON.parse\<close> reads back.
  A string is quoted as the built-in does: the two-character escapes, \<open>\u00XX\<close> for the
  other control characters, \<open>\uDXXX\<close> for a surrogate that is not part of a pair.
\<close>

definition hex_char :: "nat \<Rightarrow> nat" where
  "hex_char d = (if d < 10 then 48 + d else 87 + d)"

definition unicode_escape :: "nat \<Rightarrow> jsstring" where
  "unicode_escape u =
     [92, 117, hex_char (u div 4096), hex_char (u div 256 mod 16),
      hex_char (u div 16 mod 16), hex_char (u mod 16)]"

definition is_high_surrogate :: "nat \<Rightarrow> bool" where
  "is_high_surrogate c \<longleftrightarrow> 55296 \<le> c \<and> c \<le> 56319"

definition is_low_surrogate :: "nat \<Rightarrow> bool" where
  "is_low_surrogate c \<longleftrightarrow> 56320 \<le> c \<and> c \<le> 57343"

fun quote_chars :: "jsstring \<Rightarrow> jsstring" where
  "quote_chars [] = []"
| "quote_chars (c # cs) =
     (if c = 34 then 92 # 34 # quote_chars cs
      else if c = 92 then 92 # 92 # quote_chars cs
      else if c = 8 then 92 # 98 # quote_chars cs
      else if c = 12 then 92 # 102 # quote_chars cs
      else if c = 10 then 92 # 110 # quote_chars cs
      else if c = 13 then 92 # 114 # quote_chars cs
      else if c = 9 then 92 # 116 # quote_chars cs
      else if c < 32 then unicode_escape c @ quote_chars cs
      else if is_high_surrogate c then
        (case cs of
           [] \<Rightarrow> unicode_escape c
         | d # ds \<Rightarrow>
             if is_low_surrogate d then c # d # quote_chars ds
             else unicode_escape c @ quote_chars cs)
      else if is_low_surrogate c then unicode_escape c @ quote_chars cs
      else c # quote_chars cs)"

definition QuoteJSONString :: "jsstring \<Rightarrow> jsstring" where
  "QuoteJSONString s = 34 # quote_chars s @ [34]"

definition is_whole :: "rat \<Rightarrow> bool" where
  "is_whole q \<longleftrightarrow> of_int \<lfloor>q\<rfloor> = q"

definition number_text :: "rat \<Rightarrow> jsstring option" where
  "number_text q =
     (if is_whole q \<and> \<bar>q\<bar> \<le> 2 ^ 53
      then Some (if q < 0 then 45 # show_nat (nat \<lfloor>- q\<rfloor>) else show_nat (nat \<lfloor>q\<rfloor>))
      else None)"

fun JSON_stringify :: "json \<Rightarrow> jsstring option"
  and stringify_elements :: "json list \<Rightarrow> jsstring option"
  and stringify_members :: "(jsstring \<times> json) list \<Rightarrow> jsstring option"
where
  "JSON_stringify JNull = Some (ascii ''null'')"
| "JSON_stringify (JBool b) = Some (if b then ascii ''true'' else ascii ''false'')"
| "JSON_stringify (JNumber q) = number_text q"
| "JSON_stringify (JString s) = Some (QuoteJSONString s)"
| "JSON_stringify (JArray vs) =
     (case stringify_elements vs of None \<Rightarrow> None | Some t \<Rightarrow> Some (91 # t @ [93]))"
| "JSON_stringify (JObject ms) =
     (if distinct (map fst ms)
      then (case stringify_members ms of None \<Rightarrow> None | Some t \<Rightarrow> Some (123 # t @ [125]))
      else None)"
| "stringify_elements [] = Some []"
| "stringify_elements (v # vs) =
     (case JSON_stringify v of
        None \<Rightarrow> None
      | Some t \<Rightarrow>
          if vs = [] then Some t
          else (case stringify_elements vs of None \<Rightarrow> None | Some ts \<Rightarrow> Some (t @ 44 # ts)))"
| "stringify_members [] = Some []"
| "stringify_members (m # ms) =
     (case JSON_stringify (snd m) of
        None \<Rightarrow> None
      | Some t \<Rightarrow>
          if ms = [] then Some (QuoteJSONString (fst m) @ 58 # t)
          else (case stringify_members ms of
                  None \<Rightarrow> None
                | Some ts \<Rightarrow> Some (QuoteJSONString (fst m) @ 58 # t @ 44 # ts)))"

text \<open>
  What may follow a number in a text, so that the number ends there; and the characters
  a value can start with.
\<close>

definition number_end :: "jsstring \<Rightarrow> bool" where
  "number_end rest =
     (case rest of [] \<Rightarrow> True | c # _ \<Rightarrow> \<not> is_digit c \<and> c \<noteq> 46 \<and> c \<noteq> 101 \<and> c \<noteq> 69)"

definition value_start :: "nat \<Rightarrow> bool" where
  "value_start c \<longleftrightarrow>
     c = 123 \<or> c = 91 \<or> c = 34 \<or> c = 116 \<or> c = 102 \<or> c = 110 \<or> c = 45 \<or> is_digit c"

section \<open>\<open>parseAIResponse\<close> (src/lib/ai.ts)\<close>

text \<open>
  What a call can throw: the \<open>SyntaxError\<close> of \<open>JSON.parse\<close>, or a plain \<open>Error\<close>
  with its message.
\<close>

datatype js_error = SyntaxError | Error jsstring

text \<open>
  \<open>text.match(/\{[\s\S]*\}/)\<close>: the leftmost match of an opening brace, any characters
  taken greedily, and a closing brace; that is the span from the first \<open>{\<close> to the last
  \<open>}\<close> after it, and no match when no \<open>}\<close> follows the first \<open>{\<close>.
\<close>

definition brace_span :: "jsstring \<Rightarrow> jsstring option" where
  "brace_span s =
     (case dropWhile (\<lambda>c. c \<noteq> LBRACE) s of
        [] \<Rightarrow> None
      | c # rest \<Rightarrow>
          if RBRACE \<in> set rest
          then Some (c # rev (dropWhile (\<lambda>c. c \<noteq> RBRACE) (rev rest)))
          else None)"

definition parseAIResponse :: "jsstring \<Rightarrow> js_error + json" where
  "parseAIResponse text =
     (case JSON_parse text of
        Some v \<Rightarrow> Inr v
      | None \<Rightarrow>
          (case brace_span text of
             Some jsonMatch \<Rightarrow>
               (case JSON_parse jsonMatch of
                  Some v \<Rightarrow> Inr v
                | None \<Rightarrow> Inl SyntaxError)
           | None \<Rightarrow> Inl (Error (ascii ''Failed to parse AI response''))))"

section \<open>The report generator \<open>generateAnalysisPDF\<close> (src/app/jobs/[id]/page.tsx)\<close>

subsection \<open>Inputs\<close>

text \<open>
  The analysis is the value \<open>parseAIResponse\<close> returned: any of its fields may be
  missing. A missing field is \<open>None\<close>; a test such as \<open>if (analysis.jobSummary)\<close> holds
  for a string that is present and not empty, and \<open>xs && xs.length > 0\<close> for a list that
  is present and not empty.
\<close>

record CareerTrajectory =
  summary :: "jsstring option"
  growthIndicators :: "jsstring list option"
  alignmentWithRole :: "jsstring option"

record LocationAndWorkStyle =
  locationCompatibility :: "jsstring option"
  remoteWorkAlignment :: "jsstring option"
  commitmentLevelMatch :: "jsstring option"
  potentialConcerns :: "jsstring list option"

record ProfessionalCredibility =
  profileQuality :: "jsstring option"
  professionalPresence :: "jsstring list option"
  credibilityIndicators :: "jsstring list option"

record CandidateFitAnalysisResult =
  jobSummary :: "jsstring option"
  overallFitScore :: "jsstring option"
  matchingSkillsAndStrengths :: "jsstring list option"
  areasForDevelopment :: "jsstring list option"
  recommendations :: "jsstring list option"
  careerTrajectory :: "CareerTrajectory option"
  locationAndWorkStyle :: "LocationAndWorkStyle option"
  professionalCredibility :: "ProfessionalCredibility option"

text \<open>Of the candidate and the job, the fields the generator reads.\<close>

record GenomePerson =
  person_name :: "jsstring option"
  professionalHeadline :: "jsstring option"

record JobDetails =
  objective :: jsstring
  organizations :: "jsstring list option"

text \<open>\<open>organizations\<close> holds the names of the organizations, in order.\<close>

definition truthy :: "jsstring option \<Rightarrow> bool" where
  "truthy v = (case v of None \<Rightarrow> False | Some s \<Rightarrow> s \<noteq> [])"

definition nonempty :: "'a list option \<Rightarrow> bool" where
  "nonempty v = (case v of None \<Rightarrow> False | Some xs \<Rightarrow> 0 < length xs)"

text \<open>\<open>v || d\<close> on strings, and the value of a field known to be present.\<close>

definition or_else :: "jsstring option \<Rightarrow> jsstring \<Rightarrow> jsstring" where
  "or_else v d = (if truthy v then the v else d)"

definition items_of :: "'a list option \<Rightarrow> 'a list" where
  "items_of v = (case v of None \<Rightarrow> [] | Some xs \<Rightarrow> xs)"

definition text_of :: "jsstring option \<Rightarrow> jsstring" where
  "text_of v = (case v of None \<Rightarrow> [] | Some s \<Rightarrow> s)"

subsection \<open>The document\<close>

text \<open>
  The jsPDF document is modelled by what the generator uses of it: the number of pages,
  the current page, the current text style and fill colour, and the drawing calls made
  so far, each with the page it went to. The variable \<open>y\<close> of the generator is the field
  \<open>cur_y\<close>, and the name passed to \<open>pdf.save\<close> is \<open>savedAs\<close>.
\<close>

type_synonym rgb = "nat \<times> nat \<times> nat"

record text_style =
  bold :: bool
  fontSize :: nat
  textColor :: rgb

datatype align = AlignLeft | AlignCenter

datatype draw =
    Rect real real real real rgb
  | RoundedRect real real real real real real rgb
  | Circle real real real rgb
  | Text "jsstring list" real real align text_style

record pdf_state =
  numPages :: nat
  curPage :: nat
  style :: text_style
  fillColor :: rgb
  drawn :: "(nat \<times> draw) list"
  cur_y :: real
  savedAs :: "jsstring option"

text \<open>
  What the library and the clock supply: the page size, the line wrapping of
  \<open>splitTextToSize\<close> (which measures the text in the current font) and the date printed
  in the header.
\<close>

record env =
  pageWidth :: real
  pageHeight :: real
  splitTextToSize :: "text_style \<Rightarrow> jsstring \<Rightarrow> real \<Rightarrow> jsstring list"
  today :: jsstring

definition margin :: real where "margin = 20"

definition contentWidth :: "env \<Rightarrow> real" where
  "contentWidth E = pageWidth E - 2 * margin"

definition new_jsPDF :: pdf_state where
  "new_jsPDF =
     \<lparr>numPages = 1, curPage = 1,
      style = \<lparr>bold = False, fontSize = 16, textColor = (0, 0, 0)\<rparr>,
      fillColor = (0, 0, 0), drawn = [], cur_y = margin, savedAs = None\<rparr>"

definition addPage :: "pdf_state \<Rightarrow> pdf_state" where
  "addPage st = st\<lparr>numPages := numPages st + 1, curPage := numPages st + 1\<rparr>"

definition setPage :: "nat \<Rightarrow> pdf_state \<Rightarrow> pdf_state" where
  "setPage i st = st\<lparr>curPage := i\<rparr>"

definition setFont :: "bool \<Rightarrow> pdf_state \<Rightarrow> pdf_state" where
  "setFont b st =
     st\<lparr>style := \<lparr>bold = b, fontSize = fontSize (style st), textColor = textColor (style st)\<rparr>\<rparr>"

definition setFontSize :: "nat \<Rightarrow> pdf_state \<Rightarrow> pdf_state" where
  "setFontSize n st =
     st\<lparr>style := \<lparr>bold = bold (style st), fontSize = n, textColor = textColor (style st)\<rparr>\<rparr>"

definition setTextColor :: "rgb \<Rightarrow> pdf_state \<Rightarrow> pdf_state" where
  "setTextColor c st =
     st\<lparr>style := \<lparr>bold = bold (style st), fontSize = fontSize (style st), textColor = c\<rparr>\<rparr>"

definition setFillColor :: "rgb \<Rightarrow> pdf_state \<Rightarrow> pdf_state" where
  "setFillColor c st = st\<lparr>fillColor := c\<rparr>"

definition put :: "draw \<Rightarrow> pdf_state \<Rightarrow> pdf_state" where
  "put d st = st\<lparr>drawn := drawn st @ [(curPage st, d)]\<rparr>"

definition rect :: "real \<Rightarrow> real \<Rightarrow> real \<Rightarrow> real \<Rightarrow> pdf_state \<Rightarrow> pdf_state" where
  "rect x y w h st = put (Rect x y w h (fillColor st)) st"

definition roundedRect ::
  "real \<Rightarrow> real \<Rightarrow> real \<Rightarrow> real \<Rightarrow> real \<Rightarrow> real \<Rightarrow> pdf_state \<Rightarrow> pdf_state" where
  "roundedRect x y w h rx ry st = put (RoundedRect x y w h rx ry (fillColor st)) st"

definition circle :: "real \<Rightarrow> real \<Rightarrow> real \<Rightarrow> pdf_state \<Rightarrow> pdf_state" where
  "circle x y r st = put (Circle x y r (fillColor st)) st"

definition pdf_text :: "jsstring list \<Rightarrow> real \<Rightarrow> real \<Rightarrow> pdf_state \<Rightarrow> pdf_state" where
  "pdf_text ls x y st = put (Text ls x y AlignLeft (style st)) st"

definition pdf_text_center :: "jsstring list \<Rightarrow> real \<Rightarrow> real \<Rightarrow> pdf_state \<Rightarrow> pdf_state" where
  "pdf_text_center ls x y st = put (Text ls x y AlignCenter (style st)) st"

text \<open>Statements in sequence, and the advance \<open>y += d\<close>.\<close>

definition seq :: "('s \<Rightarrow> 's) list \<Rightarrow> 's \<Rightarrow> 's" where
  "seq fs st = fold (\<lambda>f s. f s) fs st"

definition advance :: "real \<Rightarrow> pdf_state \<Rightarrow> pdf_state" where
  "advance d st = st\<lparr>cur_y := cur_y st + d\<rparr>"

subsection \<open>The add operations\<close>

text \<open>\<open>addNewPageIfNeeded\<close> also returns whether it added a page; no caller reads it.\<close>

definition addNewPageIfNeeded :: "env \<Rightarrow> real \<Rightarrow> pdf_state \<Rightarrow> pdf_state" where
  "addNewPageIfNeeded E requiredHeight st =
     (if cur_y st + requiredHeight > pageHeight E - margin
      then (addPage st)\<lparr>cur_y := margin\<rparr>
      else st)"

definition addSectionTitle :: "env \<Rightarrow> jsstring \<Rightarrow> pdf_state \<Rightarrow> pdf_state" where
  "addSectionTitle E title =
     seq [addNewPageIfNeeded E 20,
          setFont True, setFontSize 14, setTextColor (80, 80, 80),
          (\<lambda>st. pdf_text [title] margin (cur_y st) st),
          advance 8]"

definition addBulletItem :: "env \<Rightarrow> rgb \<Rightarrow> jsstring \<Rightarrow> pdf_state \<Rightarrow> pdf_state" where
  "addBulletItem E bulletColor item st =
     (let lines = splitTextToSize E (style st) item (contentWidth E - 10);
          blockHeight = real (length lines) * 5 + 3
      in seq [addNewPageIfNeeded E blockHeight,
              setFillColor bulletColor,
              (\<lambda>st. circle (margin + 2) (cur_y st - 3 / 2) (3 / 2) st),
              (\<lambda>st. pdf_text lines (margin + 8) (cur_y st) st),
              advance blockHeight] st)"

definition addBulletList :: "env \<Rightarrow> jsstring list \<Rightarrow> rgb \<Rightarrow> pdf_state \<Rightarrow> pdf_state" where
  "addBulletList E items bulletColor =
     seq [setFont False, setFontSize 10, setTextColor (60, 60, 60),
          fold (addBulletItem E bulletColor) items,
          advance 3]"

definition addParagraph :: "env \<Rightarrow> jsstring \<Rightarrow> pdf_state \<Rightarrow> pdf_state" where
  "addParagraph E txt =
     seq [setFont False, setFontSize 10, setTextColor (60, 60, 60),
          (\<lambda>st. let lines = splitTextToSize E (style st) txt (contentWidth E);
                    blockHeight = real (length lines) * 5 + 5
                in seq [addNewPageIfNeeded E blockHeight,
                        (\<lambda>st. pdf_text lines margin (cur_y st) st),
                        advance blockHeight] st)]"

definition addKeyValue :: "env \<Rightarrow> jsstring \<Rightarrow> jsstring \<Rightarrow> pdf_state \<Rightarrow> pdf_state" where
  "addKeyValue E label val =
     seq [setFont True, setFontSize 10, setTextColor (100, 100, 100),
          (\<lambda>st. let labelLines = splitTextToSize E (style st) (label @ ascii '':'') 50
                in seq [(\<lambda>st. pdf_text labelLines margin (cur_y st) st),
                        setFont False, setTextColor (60, 60, 60),
                        (\<lambda>st. let valueLines =
                                    splitTextToSize E (style st) val (contentWidth E - 55)
                              in seq [(\<lambda>st. pdf_text valueLines (margin + 55) (cur_y st) st),
                                      advance (real (max (length labelLines)
                                                         (length valueLines)) * 5 + 3)] st)]
                     st)]"

text \<open>A sub-heading of a section, followed by its bullets.\<close>

definition subList ::
  "env \<Rightarrow> rgb \<Rightarrow> jsstring \<Rightarrow> jsstring list \<Rightarrow> rgb \<Rightarrow> pdf_state \<Rightarrow> pdf_state" where
  "subList E headColor heading items bulletColor =
     seq [setFont True, setFontSize 11, setTextColor headColor,
          addNewPageIfNeeded E 10,
          (\<lambda>st. pdf_text [heading] margin (cur_y st) st),
          advance 6,
          addBulletList E items bulletColor]"

definition when_true :: "bool \<Rightarrow> ('s \<Rightarrow> 's) \<Rightarrow> 's \<Rightarrow> 's" where
  "when_true b f st = (if b then f st else st)"

subsection \<open>The content pass\<close>

definition header :: "env \<Rightarrow> pdf_state \<Rightarrow> pdf_state" where
  "header E =
     seq [setFillColor (245, 245, 250),
          rect 0 0 (pageWidth E) 45,
          setFont True, setFontSize 20, setTextColor (30, 30, 35),
          pdf_text [ascii ''Candidate Fit Analysis''] margin 20,
          setFont False, setFontSize 10, setTextColor (100, 100, 100),
          pdf_text [ascii ''Generated on '' @ today E] margin 30,
          (\<lambda>st. st\<lparr>cur_y := 55\<rparr>)]"

definition candidateInfo :: "env \<Rightarrow> GenomePerson \<Rightarrow> pdf_state \<Rightarrow> pdf_state" where
  "candidateInfo E person =
     seq [setFillColor (250, 250, 255),
          (\<lambda>st. roundedRect margin (cur_y st - 5) (contentWidth E) 25 3 3 st),
          setFont True, setFontSize 12, setTextColor (30, 30, 35),
          (\<lambda>st. pdf_text [or_else (person_name person) (ascii ''Unknown Candidate'')]
                   (margin + 5) (cur_y st + 5) st),
          setFont False, setFontSize 9, setTextColor (100, 100, 100),
          (\<lambda>st. pdf_text [or_else (professionalHeadline person) []]
                   (margin + 5) (cur_y st + 12) st),
          advance 30]"

definition company :: "JobDetails \<Rightarrow> jsstring" where
  "company job =
     (case organizations job of
        None \<Rightarrow> ascii ''Unknown''
      | Some [] \<Rightarrow> ascii ''Unknown''
      | Some (n # _) \<Rightarrow> if n \<noteq> [] then n else ascii ''Unknown'')"

definition jobInfo :: "JobDetails \<Rightarrow> pdf_state \<Rightarrow> pdf_state" where
  "jobInfo job =
     seq [setFont True, setFontSize 10, setTextColor (80, 80, 80),
          (\<lambda>st. pdf_text [ascii ''Position:''] margin (cur_y st) st),
          setFont False, setTextColor (30, 30, 35),
          (\<lambda>st. pdf_text [objective job] (margin + 25) (cur_y st) st),
          advance 6,
          setFont True, setTextColor (80, 80, 80),
          (\<lambda>st. pdf_text [ascii ''Company:''] margin (cur_y st) st),
          setFont False, setTextColor (30, 30, 35),
          (\<lambda>st. pdf_text [company job] (margin + 25) (cur_y st) st),
          advance 12]"

definition scoreBadge :: "env \<Rightarrow> jsstring \<Rightarrow> pdf_state \<Rightarrow> pdf_state" where
  "scoreBadge E score =
     seq [setFillColor (230, 245, 230),
          (\<lambda>st. roundedRect margin (cur_y st - 5) (contentWidth E) 20 3 3 st),
          setFont True, setFontSize 12, setTextColor (30, 120, 30),
          (\<lambda>st. pdf_text [ascii ''Overall Fit Score: '' @ score] (margin + 5) (cur_y st + 5) st),
          advance 25]"

definition careerSection :: "env \<Rightarrow> CareerTrajectory \<Rightarrow> pdf_state \<Rightarrow> pdf_state" where
  "careerSection E ct =
     seq [addSectionTitle E (ascii ''Career Trajectory & Growth''),
          when_true (truthy (summary ct)) (addParagraph E (text_of (summary ct))),
          when_true (nonempty (growthIndicators ct))
            (subList E (120, 80, 180) (ascii ''Growth Indicators:'')
               (items_of (growthIndicators ct)) (156, 39, 176)),
          when_true (truthy (alignmentWithRole ct))
            (seq [addNewPageIfNeeded E 15,
                  addKeyValue E (ascii ''Role Alignment'') (text_of (alignmentWithRole ct))])]"

definition locationSection :: "env \<Rightarrow> LocationAndWorkStyle \<Rightarrow> pdf_state \<Rightarrow> pdf_state" where
  "locationSection E lw =
     seq [addSectionTitle E (ascii ''Location & Work Style''),
          when_true (truthy (locationCompatibility lw))
            (addKeyValue E (ascii ''Location'') (text_of (locationCompatibility lw))),
          when_true (truthy (remoteWorkAlignment lw))
            (addKeyValue E (ascii ''Remote Work'') (text_of (remoteWorkAlignment lw))),
          when_true (truthy (commitmentLevelMatch lw))
            (addKeyValue E (ascii ''Commitment'') (text_of (commitmentLevelMatch lw))),
          when_true (nonempty (potentialConcerns lw))
            (seq [advance 3,
                  subList E (255, 152, 0) (ascii ''Potential Concerns:'')
                    (items_of (potentialConcerns lw)) (255, 152, 0)])]"

definition credibilitySection ::
  "env \<Rightarrow> ProfessionalCredibility \<Rightarrow> pdf_state \<Rightarrow> pdf_state" where
  "credibilitySection E pc =
     seq [addSectionTitle E (ascii ''Professional Credibility''),
          when_true (truthy (profileQuality pc))
            (addKeyValue E (ascii ''Profile Quality'') (text_of (profileQuality pc))),
          when_true (nonempty (professionalPresence pc))
            (seq [advance 3,
                  subList E (0, 150, 136) (ascii ''Professional Presence:'')
                    (items_of (professionalPresence pc)) (0, 150, 136)]),
          when_true (nonempty (credibilityIndicators pc))
            (seq [advance 3,
                  subList E (0, 150, 136) (ascii ''Credibility Indicators:'')
                    (items_of (credibilityIndicators pc)) (0, 150, 136)])]"

text \<open>A section that is drawn when its object is present.\<close>

definition when_present :: "'a option \<Rightarrow> ('a \<Rightarrow> 's \<Rightarrow> 's) \<Rightarrow> 's \<Rightarrow> 's" where
  "when_present v f st = (case v of None \<Rightarrow> st | Some x \<Rightarrow> f x st)"

definition contentPass ::
  "env \<Rightarrow> CandidateFitAnalysisResult \<Rightarrow> GenomePerson \<Rightarrow> JobDetails \<Rightarrow> pdf_state" where
  "contentPass E analysis person job =
     seq [header E,
          candidateInfo E person,
          jobInfo job,
          when_true (truthy (overallFitScore analysis))
            (scoreBadge E (text_of (overallFitScore analysis))),
          when_true (truthy (jobSummary analysis))
            (seq [addSectionTitle E (ascii ''Job Summary''),
                  addParagraph E (text_of (jobSummary analysis)),
                  advance 5]),
          when_true (nonempty (matchingSkillsAndStrengths analysis))
            (seq [addSectionTitle E (ascii ''Matching Skills & Strengths''),
                  addBulletList E (items_of (matchingSkillsAndStrengths analysis)) (76, 175, 80)]),
          when_true (nonempty (areasForDevelopment analysis))
            (seq [addSectionTitle E (ascii ''Areas for Development''),
                  addBulletList E (items_of (areasForDevelopment analysis)) (255, 193, 7)]),
          when_true (nonempty (recommendations analysis))
            (seq [addSectionTitle E (ascii ''Recommendations''),
                  addBulletList E (items_of (recommendations analysis)) (66, 165, 245)]),
          when_present (careerTrajectory analysis) (careerSection E),
          when_present (locationAndWorkStyle analysis) (locationSection E),
          when_present (professionalCredibility analysis) (credibilitySection E)]
       new_jsPDF"

subsection \<open>The footer pass and the file name\<close>

text \<open>The bullet of the footer is the single character U+2022.\<close>

definition footerText :: "nat \<Rightarrow> nat \<Rightarrow> jsstring" where
  "footerText i totalPages =
     ascii ''Page '' @ show_nat i @ ascii '' of '' @ show_nat totalPages
       @ ascii '' '' @ [8226] @ ascii '' Torre Candidate Fit Analysis''"

definition stampFooter :: "env \<Rightarrow> nat \<Rightarrow> nat \<Rightarrow> pdf_state \<Rightarrow> pdf_state" where
  "stampFooter E totalPages i =
     seq [setPage i,
          setFont False, setFontSize 8, setTextColor (150, 150, 150),
          pdf_text_center [footerText i totalPages] (pageWidth E / 2) (pageHeight E - 10)]"

text \<open>\<open>pdf.internal.pages\<close> has an unused slot at index 0 before the pages.\<close>

definition internal_pages_length :: "pdf_state \<Rightarrow> nat" where
  "internal_pages_length st = numPages st + 1"

definition footerPass :: "env \<Rightarrow> pdf_state \<Rightarrow> pdf_state" where
  "footerPass E st =
     (let totalPages = internal_pages_length st - 1
      in fold (stampFooter E totalPages) [1 ..< Suc totalPages] st)"

text \<open>
  \<open>\s\<close> of a regular expression: the white space and line terminators of the language.
\<close>

definition is_space :: "nat \<Rightarrow> bool" where
  "is_space c \<longleftrightarrow>
     (9 \<le> c \<and> c \<le> 13) \<or> c = 32 \<or> c = 160 \<or> c = 5760 \<or> (8192 \<le> c \<and> c \<le> 8202)
     \<or> c = 8232 \<or> c = 8233 \<or> c = 8239 \<or> c = 8287 \<or> c = 12288 \<or> c = 65279"

text \<open>\<open>s.replace(/\s+/g, "_")\<close>: every maximal run of white space becomes one underscore.\<close>

function replace_ws :: "jsstring \<Rightarrow> jsstring" where
  "replace_ws [] = []"
| "replace_ws (c # cs) =
     (if is_space c then 95 # replace_ws (dropWhile is_space cs) else c # replace_ws cs)"
  by pat_completeness auto
termination
  by (relation "measure length") (auto simp: length_dropWhile_le less_Suc_eq_le)

definition substring0 :: "nat \<Rightarrow> jsstring \<Rightarrow> jsstring" where
  "substring0 n s = take n s"

definition fileName :: "GenomePerson \<Rightarrow> JobDetails \<Rightarrow> jsstring" where
  "fileName person job =
     ascii ''Candidate_Fit_''
       @ or_else (map_option replace_ws (person_name person)) (ascii ''Unknown'')
       @ ascii ''_''
       @ substring0 30 (replace_ws (objective job))
       @ ascii ''.pdf''"

definition save :: "jsstring \<Rightarrow> pdf_state \<Rightarrow> pdf_state" where
  "save name st = st\<lparr>savedAs := Some name\<rparr>"

definition generateAnalysisPDF ::
  "env \<Rightarrow> CandidateFitAnalysisResult \<Rightarrow> GenomePerson \<Rightarrow> JobDetails \<Rightarrow> pdf_state" where
  "generateAnalysisPDF E analysis person job =
     save (fileName person job) (footerPass E (contentPass E analysis person job))"

subsection \<open>A page and a wrapping to run the generator on\<close>

text \<open>
  \<open>splitTextToSize\<close> first splits a text at its line feeds and then wraps each line that
  is wider than the given width. On a text whose lines all fit, its result is
  \<open>split_lines\<close>: the lines between the line feeds. The environment \<open>A4_short_lines\<close>
  is an A4 page in millimetres with that wrapping, for inputs whose lines are short.
\<close>

fun split_lines :: "jsstring \<Rightarrow> jsstring list" where
  "split_lines [] = [[]]"
| "split_lines (c # cs) =
     (case split_lines cs of
        [] \<Rightarrow> [[c]]
      | l # ls \<Rightarrow> if c = 10 then [] # l # ls else (c # l) # ls)"

definition A4_short_lines :: env where
  "A4_short_lines =
     \<lparr>pageWidth = 210, pageHeight = 297,
      splitTextToSize = (\<lambda>_ t _. split_lines t),
      today = ascii ''November 2, 2026''\<rparr>"

text \<open>A text of \<open>n\<close> lines, each the single letter \<open>x\<close>.\<close>

definition text_of_lines :: "nat \<Rightarrow> jsstring" where
  "text_of_lines n = concat (replicate (n - 1) [120, 10]) @ [120]"

definition no_analysis :: CandidateFitAnalysisResult where
  "no_analysis =
     \<lparr>jobSummary = None, overallFitScore = None, matchingSkillsAndStrengths = None,
      areasForDevelopment = None, recommendations = None, careerTrajectory = None,
      locationAndWorkStyle = None, professionalCredibility = None\<rparr>"

definition jane :: GenomePerson where
  "jane = \<lparr>person_name = Some (ascii ''Jane Doe''),
            professionalHeadline = Some (ascii ''Product Designer'')\<rparr>"

definition designer :: JobDetails where
  "designer = \<lparr>objective = ascii ''Senior Designer'', organizations = Some [ascii ''Acme'']\<rparr>"

text \<open>A candidate whose name is the empty string, and a job with a long objective.\<close>

definition unnamed :: GenomePerson where
  "unnamed = \<lparr>person_name = Some [], professionalHeadline = None\<rparr>"

definition platform_engineer :: JobDetails where
  "platform_engineer =
     \<lparr>objective = ascii ''Senior Staff  Software Engineer, Platform'', organizations = None\<rparr>"

text \<open>
  A summary of 27 lines, and a location section whose three values take three lines
  each.
\<close>

definition overflow_analysis :: CandidateFitAnalysisResult where
  "overflow_analysis =
     no_analysis
       \<lparr>jobSummary := Some (text_of_lines 27),
        locationAndWorkStyle :=
          Some \<lparr>locationCompatibility = Some (text_of_lines 3),
                remoteWorkAlignment = Some (text_of_lines 3),
                commitmentLevelMatch = Some (text_of_lines 3),
                potentialConcerns = None\<rparr>\<rparr>"

text \<open>
  A summary, and a career trajectory whose fields are all empty: the empty string, the
  empty list, the empty string.
\<close>

definition empty_career_analysis :: CandidateFitAnalysisResult where
  "empty_career_analysis =
     no_analysis
       \<lparr>jobSummary := Some (ascii ''A good role.''),
        careerTrajectory :=
          Some \<lparr>summary = Some [], growthIndicators = Some [], alignmentWithRole = Some []\<rparr>\<rparr>"

text \<open>A summary of 40 lines: it does not fit under the heading on the first page.\<close>

definition two_page_analysis :: CandidateFitAnalysisResult where
  "two_page_analysis = no_analysis\<lparr>jobSummary := Some (text_of_lines 40)\<rparr>"

section \<open>The route \<open>POST /api/ai\<close> (src/app/api/ai/route.ts)\<close>

text \<open>
  What a call can throw is caught by the handler, which tells an \<open>Error\<close> (with its
  message) from any other thrown value.
\<close>

datatype thrown = ThrownError jsstring | ThrownOther

record gen_args =
  arg_model :: json
  arg_system :: "json option"
  arg_prompt :: json

record gen_result =
  result_text :: jsstring
  result_usage :: "json option"
  result_finishReason :: jsstring

datatype response_body =
    ErrorBody jsstring
  | ResultBody jsstring "json option" jsstring

record response =
  resp_status :: nat
  resp_body :: response_body

text \<open>The truth value of a JSON value in a condition; a missing property is \<open>None\<close>.\<close>

definition js_truthy :: "json option \<Rightarrow> bool" where
  "js_truthy v =
     (case v of
        None \<Rightarrow> False
      | Some JNull \<Rightarrow> False
      | Some (JBool b) \<Rightarrow> b
      | Some (JNumber q) \<Rightarrow> q \<noteq> 0
      | Some (JString s) \<Rightarrow> s \<noteq> []
      | Some (JArray _) \<Rightarrow> True
      | Some (JObject _) \<Rightarrow> True)"

text \<open>
  \<open>const { prompt, systemPrompt, model: modelId } = body\<close>: the three properties of the
  body. Destructuring \<open>null\<close> throws a \<open>TypeError\<close>; a body that is not an object has
  none of the properties.
\<close>

definition property :: "json \<Rightarrow> jsstring \<Rightarrow> json option" where
  "property v k = (case v of JObject ms \<Rightarrow> map_of ms k | _ \<Rightarrow> None)"

definition destructure_null_message :: jsstring where
  "destructure_null_message =
     ascii ''Cannot destructure property 'prompt' of 'body' as it is null.''"

definition destructure :: "json \<Rightarrow> thrown + (json option \<times> json option \<times> json option)" where
  "destructure b =
     (case b of
        JNull \<Rightarrow> Inl (ThrownError destructure_null_message)
      | _ \<Rightarrow> Inr (property b (ascii ''prompt''), property b (ascii ''systemPrompt''),
                  property b (ascii ''model'')))"

text \<open>\<open>s.includes(p)\<close>: \<open>p\<close> occurs in \<open>s\<close>.\<close>

fun js_includes :: "jsstring \<Rightarrow> jsstring \<Rightarrow> bool" where
  "js_includes [] p = (p = [])"
| "js_includes (c # cs) p = (take (length p) (c # cs) = p \<or> js_includes cs p)"

definition json_response :: "nat \<Rightarrow> response_body \<Rightarrow> response" where
  "json_response st b = \<lparr>resp_status = st, resp_body = b\<rparr>"

text \<open>The \<open>catch\<close> block.\<close>

definition on_error :: "thrown \<Rightarrow> response" where
  "on_error e =
     (case e of
        ThrownError message \<Rightarrow>
          if js_includes message (ascii ''API key'')
          then json_response 500
                 (ErrorBody (ascii ''Google API key not configured. Set GOOGLE_GENERATIVE_AI_API_KEY environment variable.''))
          else json_response 500 (ErrorBody message)
      | ThrownOther \<Rightarrow> json_response 500 (ErrorBody (ascii ''An unexpected error occurred'')))"

text \<open>\<open>modelId || process.env.GOOGLE_MODEL || "gemini-2.5-flash-lite"\<close>.\<close>

definition modelName :: "jsstring option \<Rightarrow> json option \<Rightarrow> json" where
  "modelName GOOGLE_MODEL modelId =
     (if js_truthy modelId then the modelId
      else if truthy GOOGLE_MODEL then JString (the GOOGLE_MODEL)
      else JString (ascii ''gemini-2.5-flash-lite''))"

text \<open>
  The handler, given the value of \<open>process.env.GOOGLE_MODEL\<close>, what the upstream call
  \<open>generateText\<close> does with its arguments, and what \<open>request.json()\<close> yields. Its result
  is the response and the list of the upstream calls it made.
\<close>

definition POST ::
  "jsstring option \<Rightarrow> (gen_args \<Rightarrow> thrown + gen_result) \<Rightarrow> thrown + json
     \<Rightarrow> response \<times> gen_args list" where
  "POST GOOGLE_MODEL generateText request_json =
     (case request_json of
        Inl e \<Rightarrow> (on_error e, [])
      | Inr b \<Rightarrow>
          (case destructure b of
             Inl e \<Rightarrow> (on_error e, [])
           | Inr (prompt, systemPrompt, modelId) \<Rightarrow>
               if \<not> js_truthy prompt
               then (json_response 400 (ErrorBody (ascii ''Prompt is required'')), [])
               else
                 (let args = \<lparr>arg_model = modelName GOOGLE_MODEL modelId,
                              arg_system = systemPrompt, arg_prompt = the prompt\<rparr>
                  in case generateText args of
                       Inl e \<Rightarrow> (on_error e, [args])
                     | Inr r \<Rightarrow>
                         (json_response 200
                            (ResultBody (result_text r) (result_usage r) (result_finishReason r)),
                          [args]))))"

section \<open>The remote-work line of \<open>generateCandidateFitPrompt\<close> (src/lib/ai.ts)\<close>

text \<open>
  A number of the language is a finite value, \<open>NaN\<close> or an infinity. The finite values
  are taken exactly: the rounding of doubles is not modelled. Division by zero does not
  throw; it yields \<open>NaN\<close> or an infinity.
\<close>

datatype jsnum = Finite rat | NaN | Infinity bool

fun js_div :: "jsnum \<Rightarrow> jsnum \<Rightarrow> jsnum" where
  "js_div (Finite a) (Finite b) =
     (if b = 0 then (if a = 0 then NaN else Infinity (0 < a)) else Finite (a / b))"
| "js_div (Infinity s) (Finite b) = Infinity (s = (0 \<le> b))"
| "js_div (Finite a) (Infinity s) = Finite 0"
| "js_div _ _ = NaN"

fun js_mul :: "jsnum \<Rightarrow> jsnum \<Rightarrow> jsnum" where
  "js_mul (Finite a) (Finite b) = Finite (a * b)"
| "js_mul (Infinity s) (Finite b) = (if b = 0 then NaN else Infinity (s = (0 < b)))"
| "js_mul (Finite a) (Infinity s) = (if a = 0 then NaN else Infinity (s = (0 < a)))"
| "js_mul (Infinity s) (Infinity t) = Infinity (s = t)"
| "js_mul _ _ = NaN"

text \<open>\<open>Math.round\<close>: the nearest integer, a tie going up.\<close>

fun Math_round :: "jsnum \<Rightarrow> jsnum" where
  "Math_round (Finite q) = Finite (of_int \<lfloor>q + 1 / 2\<rfloor>)"
| "Math_round x = x"

record GenomeExperience =
  remote :: "bool option"

definition remoteJobsCount :: "GenomeExperience list option \<Rightarrow> nat" where
  "remoteJobsCount jobs =
     (case jobs of None \<Rightarrow> 0 | Some js \<Rightarrow> length (filter (\<lambda>j. remote j = Some True) js))"

definition totalJobsCount :: "GenomeExperience list option \<Rightarrow> nat" where
  "totalJobsCount jobs = (case jobs of None \<Rightarrow> 0 | Some js \<Rightarrow> length js)"

definition remoteExperiencePercent :: "GenomeExperience list option \<Rightarrow> jsnum" where
  "remoteExperiencePercent jobs =
     (if totalJobsCount jobs > 0
      then Math_round
             (js_mul (js_div (Finite (of_nat (remoteJobsCount jobs)))
                             (Finite (of_nat (totalJobsCount jobs))))
                     (Finite 100))
      else Finite 0)"

text \<open>A number in a template string; only whole numbers and \<open>NaN\<close> are needed here.\<close>

definition show_jsnum :: "jsnum \<Rightarrow> jsstring" where
  "show_jsnum x =
     (case x of
        Finite q \<Rightarrow> (if q < 0 then 45 # show_nat (nat \<lfloor>- q\<rfloor>) else show_nat (nat \<lfloor>q\<rfloor>))
      | NaN \<Rightarrow> ascii ''NaN''
      | Infinity s \<Rightarrow> (if s then ascii ''Infinity'' else ascii ''-Infinity''))"

definition remoteWorkLine :: "GenomeExperience list option \<Rightarrow> jsstring" where
  "remoteWorkLine jobs =
     ascii ''**Remote Work Experience:** '' @ show_nat (remoteJobsCount jobs)
       @ ascii '' out of '' @ show_nat (totalJobsCount jobs)
       @ ascii '' positions ('' @ show_jsnum (remoteExperiencePercent jobs) @ ascii ''%)''"

text \<open>Three positions: one remote, one that does not say, one on site.\<close>

definition three_jobs :: "GenomeExperience list" where
  "three_jobs = [\<lparr>remote = Some True\<rparr>, \<lparr>remote = None\<rparr>, \<lparr>remote = Some False\<rparr>]"

section \<open>Decimal digits\<close>

lemma show_nat_step: "\<not> n < 10 \<Longrightarrow> show_nat n = show_nat (n div 10) @ [48 + n mod 10]"
  by (subst show_nat.simps) simp

lemma show_nat_small: "n < 10 \<Longrightarrow> show_nat n = [48 + n]"
  by (subst show_nat.simps) simp

section \<open>Properties of the JSON parser\<close>

text \<open>
  Every successful parse consumes some of the text. With that, the bound on the nesting
  is shown to be a device for termination only: the starting bound of \<open>JSON_parse\<close> is
  never used up, and any larger one gives the same result.
\<close>

lemma skip_ws_Cons_length: "skip_ws s = c # r \<Longrightarrow> length r < length s"
  using length_dropWhile_le [of is_ws s] by (simp add: skip_ws_def)

lemma cons_result_Some:
  "cons_result x res = Some (xs, rest) \<Longrightarrow> \<exists>ys. res = Some (ys, rest) \<and> xs = x # ys"
  by (auto simp: cons_result_def split: option.splits)

lemma parse_chars_shorter: "parse_chars s = Some (k, r) \<Longrightarrow> length r < length s"
proof (induction s arbitrary: k r rule: parse_chars.induct)
  case 1
  then show ?case by simp
next
  case (2 c cs)
  show ?case
  proof (cases "c = 34")
    case True
    with 2(4) show ?thesis by simp
  next
    case ne34: False
    show ?thesis
    proof (cases "c = 92")
      case True
      with ne34 2(4) obtain e r0 where cs: "cs = e # r0" by (auto split: list.splits)
      show ?thesis
      proof (cases "e = 117")
        case True
        with ne34 \<open>c = 92\<close> cs 2(4)
        obtain h1 h2 h3 h4 r' u ys where
          r0: "r0 = h1 # h2 # h3 # h4 # r'" and u: "hex4 h1 h2 h3 h4 = Some u"
          and p: "parse_chars r' = Some (ys, r)"
          by (auto split: list.splits option.splits dest!: cons_result_Some)
        have "length r < length r'"
          by (rule 2(1) [OF ne34 \<open>c = 92\<close> cs True r0 refl refl refl u p])
        then show ?thesis
          using cs r0 by simp
      next
        case False
        with ne34 \<open>c = 92\<close> cs 2(4)
        obtain u ys where u: "unescape e = Some u" and p: "parse_chars r0 = Some (ys, r)"
          by (auto split: option.splits dest!: cons_result_Some)
        from 2(2) [OF ne34 \<open>c = 92\<close> cs False u p] show ?thesis
          using cs by simp
      qed
    next
      case False
      with ne34 2(4) obtain ys where lt: "\<not> c < 32" and p: "parse_chars cs = Some (ys, r)"
        by (auto split: if_splits dest!: cons_result_Some)
      from 2(3) [OF ne34 False lt p] show ?thesis by simp
    qed
  qed
qed

lemma parse_literal_shorter:
  "word \<noteq> [] \<Longrightarrow> parse_literal word v s = Some (x, r) \<Longrightarrow> length r < length s"
proof -
  assume w: "word \<noteq> []" and p: "parse_literal word v s = Some (x, r)"
  then have t: "take (length word) s = word" and r: "r = drop (length word) s"
    by (auto simp: parse_literal_def split: if_splits)
  from t have "length word \<le> length s"
    by (metis length_take min.cobounded1)
  with w r show ?thesis by (cases word) auto
qed

lemma parse_frac_shorter: "parse_frac s = Some (fp, r) \<Longrightarrow> length r \<le> length s"
  using length_dropWhile_le [of is_digit]
  by (auto simp: parse_frac_def le_SucI split: list.splits if_splits)

lemma parse_exp_digits_shorter: "parse_exp_digits b s = Some (e, r) \<Longrightarrow> length r \<le> length s"
  using length_dropWhile_le [of is_digit]
  by (auto simp: parse_exp_digits_def split: if_splits)

lemma parse_exp_shorter: "parse_exp s = Some (e, r) \<Longrightarrow> length r \<le> length s"
  by (auto simp: parse_exp_def le_SucI split: list.splits if_splits
        dest!: parse_exp_digits_shorter)

lemma parse_unsigned_shorter: "parse_unsigned s = Some (q, r) \<Longrightarrow> length r < length s"
proof -
  assume p: "parse_unsigned s = Some (q, r)"
  define ip where "ip = (case s of [] \<Rightarrow> [] | c # r \<Rightarrow> if c = 48 then [c] else takeWhile is_digit s)"
  have le: "length ip \<le> length s"
    unfolding ip_def using length_takeWhile_le [of is_digit s]
    by (auto split: list.splits)
  from p obtain fp s2 e where ne: "ip \<noteq> []"
    and f: "parse_frac (drop (length ip) s) = Some (fp, s2)"
    and x: "parse_exp s2 = Some (e, r)"
    unfolding parse_unsigned_def ip_def [symmetric] Let_def
    by (auto split: if_splits option.splits)
  from ne le have "length (drop (length ip) s) < length s" by (cases ip) auto
  with parse_frac_shorter [OF f] parse_exp_shorter [OF x] show ?thesis by simp
qed

lemma parse_number_shorter: "parse_number s = Some (q, r) \<Longrightarrow> length r < length s"
  by (auto simp: parse_number_def less_SucI split: list.splits if_splits option.splits
        dest!: parse_unsigned_shorter)

lemma ascii_words_not_Nil:
  "ascii ''true'' \<noteq> []" "ascii ''false'' \<noteq> []" "ascii ''null'' \<noteq> []"
  by (simp_all add: ascii_def)

lemma parse_word_shorter:
  "parse_literal (ascii ''true'') x (c # r0) = Some (v, r) \<Longrightarrow> length r \<le> length r0"
  "parse_literal (ascii ''false'') x (c # r0) = Some (v, r) \<Longrightarrow> length r \<le> length r0"
  "parse_literal (ascii ''null'') x (c # r0) = Some (v, r) \<Longrightarrow> length r \<le> length r0"
  using parse_literal_shorter [of _ x "c # r0" v r] ascii_words_not_Nil by fastforce+

lemma parse_shorter:
  "(parse_value n s = Some (v, r) \<longrightarrow> length r < length s)
   \<and> (parse_elements n s = Some (vs, r) \<longrightarrow> length r < length s)
   \<and> (parse_members n s = Some (ms, r) \<longrightarrow> length r < length s)"
proof (induction n arbitrary: s v r vs ms)
  case 0
  show ?case by simp
next
  case (Suc n)
  have ihv: "\<And>s v r. parse_value n s = Some (v, r) \<Longrightarrow> length r < length s"
    and ihe: "\<And>s vs r. parse_elements n s = Some (vs, r) \<Longrightarrow> length r < length s"
    and ihm: "\<And>s ms r. parse_members n s = Some (ms, r) \<Longrightarrow> length r < length s"
    using Suc.IH by blast+
  have V: "length r < length s" if p: "parse_value (Suc n) s = Some (v, r)"
  proof -
    from p obtain c r0 where sk: "skip_ws s = c # r0"
      by (auto split: list.splits)
    note l0 = skip_ws_Cons_length [OF sk]
    have "length r \<le> length r0"
    proof (cases "c = 123")
      case True
      with p sk obtain d r' where sk2: "skip_ws r0 = d # r'"
        by (auto split: list.splits)
      note l1 = skip_ws_Cons_length [OF sk2]
      show ?thesis
      proof (cases "d = 125")
        case True
        with p sk \<open>c = 123\<close> sk2 l1 show ?thesis by auto
      next
        case False
        with p sk \<open>c = 123\<close> sk2 obtain ms' where "parse_members n (d # r') = Some (ms', r)"
          by (auto split: option.splits)
        from ihm [OF this] l1 show ?thesis by simp
      qed
    next
      case n123: False
      show ?thesis
      proof (cases "c = 91")
        case True
        with p sk n123 obtain d r' where sk2: "skip_ws r0 = d # r'"
          by (auto split: list.splits)
        note l1 = skip_ws_Cons_length [OF sk2]
        show ?thesis
        proof (cases "d = 93")
          case True
          with p sk n123 \<open>c = 91\<close> sk2 l1 show ?thesis by auto
        next
          case False
          with p sk n123 \<open>c = 91\<close> sk2 obtain vs' where "parse_elements n (d # r') = Some (vs', r)"
            by (auto split: option.splits)
          from ihe [OF this] l1 show ?thesis by simp
        qed
      next
        case n91: False
        show ?thesis
        proof (cases "c = 34")
          case True
          with p sk n123 n91 obtain str where "parse_chars r0 = Some (str, r)"
            by (auto split: option.splits)
          from parse_chars_shorter [OF this] show ?thesis by simp
        next
          case n34: False
          show ?thesis
          proof (cases "c = 116 \<or> c = 102 \<or> c = 110")
            case True
            with p sk n123 n91 n34 show ?thesis
              by (auto dest: parse_word_shorter)
          next
            case False
            with p sk n123 n91 n34 obtain q where "parse_number (c # r0) = Some (q, r)"
              by (auto split: option.splits)
            from parse_number_shorter [OF this] show ?thesis by simp
          qed
        qed
      qed
    qed
    with l0 show ?thesis by simp
  qed
  have E: "length r < length s" if p: "parse_elements (Suc n) s = Some (vs, r)"
  proof -
    from p obtain v0 r0 c r' where pv: "parse_value n s = Some (v0, r0)"
      and sk: "skip_ws r0 = c # r'"
      by (auto split: option.splits list.splits)
    note l0 = ihv [OF pv] and l1 = skip_ws_Cons_length [OF sk]
    show ?thesis
    proof (cases "c = 93")
      case True
      with p pv sk l0 l1 show ?thesis by auto
    next
      case False
      with p pv sk obtain ys where "parse_elements n r' = Some (ys, r)"
        by (auto split: if_splits dest!: cons_result_Some)
      from ihe [OF this] l0 l1 show ?thesis by simp
    qed
  qed
  have M: "length r < length s" if p: "parse_members (Suc n) s = Some (ms, r)"
  proof -
    from p obtain q r0 where sk: "skip_ws s = q # r0" and q: "q = 34"
      by (auto split: list.splits if_splits)
    from p sk q obtain k r1 where pc: "parse_chars r0 = Some (k, r1)"
      by (auto split: option.splits)
    from p sk q pc obtain c r2 where sk1: "skip_ws r1 = c # r2" and c: "c = 58"
      by (auto split: list.splits if_splits)
    from p sk q pc sk1 c obtain v0 r3 where pv: "parse_value n r2 = Some (v0, r3)"
      by (auto split: option.splits)
    from p sk q pc sk1 c pv obtain d r4 where sk3: "skip_ws r3 = d # r4"
      by (auto split: list.splits)
    note ls = skip_ws_Cons_length [OF sk] parse_chars_shorter [OF pc]
      skip_ws_Cons_length [OF sk1] ihv [OF pv] skip_ws_Cons_length [OF sk3]
    show ?thesis
    proof (cases "d = 125")
      case True
      with p sk q pc sk1 c pv sk3 ls show ?thesis by auto
    next
      case False
      with p sk q pc sk1 c pv sk3 obtain ys where "parse_members n r4 = Some (ys, r)"
        by (auto split: if_splits dest!: cons_result_Some)
      from ihm [OF this] ls show ?thesis by simp
    qed
  qed
  from V E M show ?case by blast
qed

lemma parse_value_shorter: "parse_value n s = Some (v, r) \<Longrightarrow> length r < length s"
  using parse_shorter [of n s v r] by simp

lemma parse_fuel_le:
  "(2 * length s < n \<longrightarrow> n \<le> m \<longrightarrow> parse_value n s = parse_value m s)
   \<and> (2 * length s + 1 < n \<longrightarrow> n \<le> m \<longrightarrow> parse_elements n s = parse_elements m s)
   \<and> (2 * length s + 1 < n \<longrightarrow> n \<le> m \<longrightarrow> parse_members n s = parse_members m s)"
proof (induction n arbitrary: s m)
  case 0
  show ?case by simp
next
  case (Suc n)
  show ?case
  proof (cases m)
    case 0
    then show ?thesis by simp
  next
    case (Suc m')
    have ihv: "\<And>x. 2 * length x < n \<Longrightarrow> n \<le> m' \<Longrightarrow> parse_value n x = parse_value m' x"
      and ihe: "\<And>x. 2 * length x + 1 < n \<Longrightarrow> n \<le> m' \<Longrightarrow> parse_elements n x = parse_elements m' x"
      and ihm: "\<And>x. 2 * length x + 1 < n \<Longrightarrow> n \<le> m' \<Longrightarrow> parse_members n x = parse_members m' x"
      using Suc.IH by blast+
    have V: "parse_value (Suc n) s = parse_value (Suc m') s"
      if b: "2 * length s < Suc n" and le: "n \<le> m'"
    proof -
      have inner: "parse_members n (d # r') = parse_members m' (d # r')
                 \<and> parse_elements n (d # r') = parse_elements m' (d # r')"
        if "skip_ws s = c # r0" "skip_ws r0 = d # r'" for c r0 d r'
      proof -
        from that have "length (d # r') < length s"
          using skip_ws_Cons_length [of s c r0] skip_ws_Cons_length [of r0 d r'] by simp
        with b have "2 * length (d # r') + 1 < n" by simp
        with le show ?thesis using ihm ihe by blast
      qed
      show ?thesis
      proof (cases "skip_ws s")
        case Nil
        then show ?thesis by simp
      next
        case (Cons c r0)
        show ?thesis
        proof (cases "skip_ws r0")
          case Nil
          with Cons show ?thesis by simp
        next
          case c2: (Cons d r')
          from inner [OF Cons c2] have "parse_members n (d # r') = parse_members m' (d # r')"
            and "parse_elements n (d # r') = parse_elements m' (d # r')" by simp_all
          with Cons c2 show ?thesis by auto
        qed
      qed
    qed
    have E: "parse_elements (Suc n) s = parse_elements (Suc m') s"
      if b: "2 * length s + 1 < Suc n" and le: "n \<le> m'"
    proof -
      from b le have pv: "parse_value n s = parse_value m' s" using ihv by simp
      show ?thesis
      proof (cases "parse_value m' s")
        case None
        with pv show ?thesis by simp
      next
        case (Some a)
        then obtain v r where a: "a = (v, r)" by (cases a)
        from Some a pv have l0: "length r < length s"
          using parse_value_shorter [of n s v r] by simp
        show ?thesis
        proof (cases "skip_ws r")
          case Nil
          with Some a pv show ?thesis by simp
        next
          case (Cons c r')
          from skip_ws_Cons_length [OF Cons] l0 b have "2 * length r' + 1 < n" by simp
          with le have "parse_elements n r' = parse_elements m' r'" using ihe by simp
          with Some a pv Cons show ?thesis by simp
        qed
      qed
    qed
    have M: "parse_members (Suc n) s = parse_members (Suc m') s"
      if b: "2 * length s + 1 < Suc n" and le: "n \<le> m'"
    proof (cases "skip_ws s")
      case Nil
      then show ?thesis by simp
    next
      case (Cons q r0)
      note l0 = skip_ws_Cons_length [OF Cons]
      show ?thesis
      proof (cases "parse_chars r0")
        case None
        with Cons show ?thesis by simp
      next
        case (Some a)
        then obtain k r1 where a: "a = (k, r1)" by (cases a)
        from Some a have l1: "length r1 < length r0" by (simp add: parse_chars_shorter)
        show ?thesis
        proof (cases "skip_ws r1")
          case Nil
          with Cons Some a show ?thesis by simp
        next
          case c1: (Cons c r2)
          note l2 = skip_ws_Cons_length [OF c1]
          from l0 l1 l2 b le have pv: "parse_value n r2 = parse_value m' r2"
            using ihv by simp
          show ?thesis
          proof (cases "parse_value m' r2")
            case None
            with Cons Some a c1 pv show ?thesis by simp
          next
            case s2: (Some a2)
            then obtain v r3 where a2: "a2 = (v, r3)" by (cases a2)
            from s2 a2 pv have l3: "length r3 < length r2"
              using parse_value_shorter [of n r2 v r3] by simp
            show ?thesis
            proof (cases "skip_ws r3")
              case Nil
              with Cons Some a c1 pv s2 a2 show ?thesis by simp
            next
              case c3: (Cons d r4)
              from skip_ws_Cons_length [OF c3] l0 l1 l2 l3 b have "2 * length r4 + 1 < n" by simp
              with le have "parse_members n r4 = parse_members m' r4" using ihm by simp
              with Cons Some a c1 pv s2 a2 c3 show ?thesis by simp
            qed
          qed
        qed
      qed
    qed
    from V E M Suc show ?thesis by simp
  qed
qed

text \<open>Above twice the length of the text, the bound on the nesting plays no part.\<close>

lemma parse_value_fuel:
  assumes "2 * length s < n" and "2 * length s < m"
  shows "parse_value n s = parse_value m s"
proof (cases "n \<le> m")
  case True
  with assms(1) show ?thesis using parse_fuel_le [of s n m] by simp
next
  case False
  then have "m \<le> n" by simp
  with assms(2) show ?thesis using parse_fuel_le [of s m n] by simp
qed

lemma JSON_parse_fuel:
  assumes "2 * length s < n"
  shows "JSON_parse s =
           (case parse_value n s of
              None \<Rightarrow> None
            | Some (v, rest) \<Rightarrow> if skip_ws rest = [] then Some v else None)"
  unfolding JSON_parse_def using parse_value_fuel [of s "Suc (2 * length s)" n] assms by simp

subsection \<open>Reading back the text of a value\<close>

lemma hex_digit_hex_char: "d < 16 \<Longrightarrow> hex_digit (hex_char d) = Some d"
  by (simp add: hex_digit_def hex_char_def)

lemma hex_split:
  "((u div 16 div 16 div 16 * 16 + u div 16 div 16 mod 16) * 16 + u div 16 mod 16) * 16 + u mod 16
     = (u :: nat)"
proof -
  have "u div 16 div 16 div 16 * 16 + u div 16 div 16 mod 16 = u div 16 div 16"
    by (rule div_mult_mod_eq)
  moreover have "u div 16 div 16 * 16 + u div 16 mod 16 = u div 16"
    by (rule div_mult_mod_eq)
  moreover have "u div 16 * 16 + u mod 16 = u"
    by (rule div_mult_mod_eq)
  ultimately show ?thesis by simp
qed

lemma hex4_unicode:
  assumes "u < 65536"
  shows "hex4 (hex_char (u div 4096)) (hex_char (u div 256 mod 16))
              (hex_char (u div 16 mod 16)) (hex_char (u mod 16)) = Some u"
proof -
  have d2: "u div 256 = u div 16 div 16" and d3: "u div 4096 = u div 16 div 16 div 16"
    by (simp_all add: div_mult2_eq)
  from assms have a: "u div 16 div 16 div 16 < 16"
    unfolding d3 [symmetric] by simp
  show ?thesis
    unfolding hex4_def d2 d3 using a hex_split [of u]
    by (simp add: hex_digit_hex_char)
qed

lemma parse_chars_unicode_escape:
  "u < 65536 \<Longrightarrow> parse_chars (unicode_escape u @ s) = cons_result u (parse_chars s)"
  by (simp add: unicode_escape_def hex4_unicode)

lemma parse_chars_literal:
  "c \<noteq> 34 \<Longrightarrow> c \<noteq> 92 \<Longrightarrow> \<not> c < 32 \<Longrightarrow> parse_chars (c # s) = cons_result c (parse_chars s)"
  by simp

lemma parse_chars_quote: "parse_chars (quote_chars k @ 34 # rest) = Some (k, rest)"
proof (induction k rule: quote_chars.induct)
  case 1
  show ?case by simp
next
  case (2 c cs)
  show ?case
  proof (cases "c = 34 \<or> c = 92 \<or> c = 8 \<or> c = 12 \<or> c = 10 \<or> c = 13 \<or> c = 9")
    case True
    then show ?thesis
    proof (elim disjE)
      assume "c = 34" with 2(1) show ?thesis by (simp add: unescape_def cons_result_def)
    next
      assume "c = 92" with 2(2) show ?thesis by (simp add: unescape_def cons_result_def)
    next
      assume "c = 8" with 2(3) show ?thesis by (simp add: unescape_def cons_result_def)
    next
      assume "c = 12" with 2(4) show ?thesis by (simp add: unescape_def cons_result_def)
    next
      assume "c = 10" with 2(5) show ?thesis by (simp add: unescape_def cons_result_def)
    next
      assume "c = 13" with 2(6) show ?thesis by (simp add: unescape_def cons_result_def)
    next
      assume "c = 9" with 2(7) show ?thesis by (simp add: unescape_def cons_result_def)
    qed
  next
    case nesc: False
    show ?thesis
    proof (cases "c < 32")
      case True
      then have "c < 65536" by simp
      with True nesc 2(8) show ?thesis
        by (simp add: parse_chars_unicode_escape cons_result_def)
    next
      case nctl: False
      show ?thesis
      proof (cases "is_high_surrogate c")
        case True
        then have u: "c < 65536" by (simp add: is_high_surrogate_def)
        show ?thesis
        proof (cases cs)
          case Nil
          with True nesc nctl u show ?thesis
            by (simp add: parse_chars_unicode_escape cons_result_def)
        next
          case (Cons d ds)
          show ?thesis
          proof (cases "is_low_surrogate d")
            case low: True
            then have d: "d \<noteq> 34" "d \<noteq> 92" "\<not> d < 32"
              by (auto simp: is_low_surrogate_def)
            from True nesc nctl Cons low have q: "quote_chars (c # cs) = c # d # quote_chars ds"
              by simp
            from True nesc nctl Cons low 2(9)
            have ih: "parse_chars (quote_chars ds @ 34 # rest) = Some (ds, rest)"
              by simp
            from nesc nctl d ih Cons show ?thesis
              unfolding q by (simp add: cons_result_def)
          next
            case nlow: False
            from True nesc nctl Cons nlow
            have q: "quote_chars (c # cs) = unicode_escape c @ quote_chars cs"
              by simp
            from True nesc nctl Cons nlow 2(10)
            have ih: "parse_chars (quote_chars cs @ 34 # rest) = Some (cs, rest)"
              by simp
            show ?thesis
              unfolding q using u ih by (simp add: parse_chars_unicode_escape cons_result_def)
          qed
        qed
      next
        case nhigh: False
        show ?thesis
        proof (cases "is_low_surrogate c")
          case True
          then have u: "c < 65536" by (simp add: is_low_surrogate_def)
          from True nhigh nesc nctl
          have q: "quote_chars (c # cs) = unicode_escape c @ quote_chars cs"
            by simp
          from True nhigh nesc nctl 2(11)
          have ih: "parse_chars (quote_chars cs @ 34 # rest) = Some (cs, rest)"
            by simp
          show ?thesis
            unfolding q using u ih by (simp add: parse_chars_unicode_escape cons_result_def)
        next
          case False
          with nhigh nesc nctl have q: "quote_chars (c # cs) = c # quote_chars cs" by simp
          from False nhigh nesc nctl 2(12)
          have ih: "parse_chars (quote_chars cs @ 34 # rest) = Some (cs, rest)"
            by simp
          from nesc nctl ih show ?thesis
            unfolding q by (simp add: cons_result_def)
        qed
      qed
    qed
  qed
qed

lemma show_nat_digits: "\<forall>c\<in>set (show_nat n). is_digit c"
proof (induction n rule: show_nat.induct)
  case (1 n)
  show ?case
  proof (cases "n < 10")
    case True
    then show ?thesis by (simp add: show_nat_small is_digit_def)
  next
    case False
    have "n mod 10 < 10" by simp
    then have "is_digit (48 + n mod 10)" unfolding is_digit_def by linarith
    with False 1 show ?thesis by (simp add: show_nat_step)
  qed
qed

lemma show_nat_not_Nil: "show_nat n \<noteq> []"
  by (cases "n < 10") (simp_all add: show_nat_small show_nat_step)

lemma show_nat_hd: "0 < n \<Longrightarrow> hd (show_nat n) \<noteq> 48"
proof (induction n rule: show_nat.induct)
  case (1 n)
  show ?case
  proof (cases "n < 10")
    case True
    with 1(2) show ?thesis by (simp add: show_nat_small)
  next
    case False
    then have "0 < n div 10" by simp
    with 1(1) [OF False] have "hd (show_nat (n div 10)) \<noteq> 48" by simp
    with False show ?thesis by (simp add: show_nat_step show_nat_not_Nil)
  qed
qed

lemma dec_value_snoc: "dec_value (ds @ [d]) = 10 * dec_value ds + (d - 48)"
  by (simp add: dec_value_def)

lemma dec_value_show_nat: "dec_value (show_nat n) = n"
proof (induction n rule: show_nat.induct)
  case (1 n)
  show ?case
  proof (cases "n < 10")
    case True
    then show ?thesis by (simp add: show_nat_small dec_value_def)
  next
    case False
    with 1 have "dec_value (show_nat (n div 10)) = n div 10" by simp
    with False show ?thesis by (simp add: show_nat_step dec_value_snoc)
  qed
qed

lemma takeWhile_digits:
  assumes "number_end rest"
  shows "takeWhile is_digit (show_nat n @ rest) = show_nat n"
proof -
  have "takeWhile is_digit rest = []"
    using assms by (cases rest) (simp_all add: number_end_def)
  with show_nat_digits [of n] show ?thesis by (simp add: takeWhile_append2)
qed

lemma parse_frac_none: "number_end rest \<Longrightarrow> parse_frac rest = Some ([], rest)"
  by (cases rest) (simp_all add: number_end_def parse_frac_def)

lemma parse_exp_none: "number_end rest \<Longrightarrow> parse_exp rest = Some (0, rest)"
  by (cases rest) (simp_all add: number_end_def parse_exp_def)

lemma parse_unsigned_show_nat:
  assumes "number_end rest"
  shows "parse_unsigned (show_nat n @ rest) = Some (of_nat n, rest)"
proof -
  obtain c r where s: "show_nat n = c # r"
    using show_nat_not_Nil [of n] by (cases "show_nat n") auto
  have ip: "(case show_nat n @ rest of [] \<Rightarrow> [] | c # r \<Rightarrow>
              if c = 48 then [c] else takeWhile is_digit (show_nat n @ rest)) = show_nat n"
  proof (cases "n = 0")
    case True
    then show ?thesis by (simp add: show_nat_small)
  next
    case False
    then have "hd (show_nat n) \<noteq> 48" using show_nat_hd by simp
    with s have "c \<noteq> 48" by simp
    with s takeWhile_digits [OF assms, of n] show ?thesis by simp
  qed
  show ?thesis
    unfolding parse_unsigned_def ip Let_def
    using assms show_nat_not_Nil [of n]
    by (simp add: parse_frac_none parse_exp_none dec_value_show_nat scale10_def)
qed

lemma show_nat_hd_digit: "is_digit (hd (show_nat n))"
  using show_nat_digits [of n] show_nat_not_Nil [of n] by (cases "show_nat n") auto

lemma parse_number_text:
  assumes "number_text q = Some t" and "number_end rest"
  shows "parse_number (t @ rest) = Some (q, rest)"
proof -
  from assms(1) have w: "of_int \<lfloor>q\<rfloor> = q"
    by (simp add: number_text_def is_whole_def split: if_splits)
  show ?thesis
  proof (cases "q < 0")
    case True
    with assms(1) have t: "t = 45 # show_nat (nat \<lfloor>- q\<rfloor>)"
      by (simp add: number_text_def split: if_splits)
    define k where "k = \<lfloor>q\<rfloor>"
    have qk: "q = of_int k" unfolding k_def by (rule w [symmetric])
    with True have "k < 0" by simp
    then have "(of_nat (nat \<lfloor>- (of_int k :: rat)\<rfloor>) :: rat) = - of_int k"
      by (simp add: of_int_minus [symmetric] del: of_int_minus)
    then have "(of_nat (nat \<lfloor>- q\<rfloor>) :: rat) = - q" unfolding qk .
    with t show ?thesis
      by (simp add: parse_number_def parse_unsigned_show_nat [OF assms(2)])
  next
    case False
    with assms(1) have t: "t = show_nat (nat \<lfloor>q\<rfloor>)"
      by (simp add: number_text_def split: if_splits)
    obtain c r where s: "show_nat (nat \<lfloor>q\<rfloor>) = c # r"
      using show_nat_not_Nil [of "nat \<lfloor>q\<rfloor>"] by (cases "show_nat (nat \<lfloor>q\<rfloor>)") auto
    with show_nat_hd_digit [of "nat \<lfloor>q\<rfloor>"] have c: "c \<noteq> 45" by (auto simp: is_digit_def)
    from False w have "(of_nat (nat \<lfloor>q\<rfloor>) :: rat) = q" by simp
    with parse_unsigned_show_nat [OF assms(2), of "nat \<lfloor>q\<rfloor>"] s c t show ?thesis
      by (simp add: parse_number_def)
  qed
qed

lemma value_start_not_ws: "value_start c \<Longrightarrow> \<not> is_ws c"
  by (auto simp: value_start_def is_ws_def is_digit_def)

lemma skip_ws_start: "\<not> is_ws c \<Longrightarrow> skip_ws (c # s) = c # s"
  by (simp add: skip_ws_def)

lemma number_text_start:
  "number_text q = Some t \<Longrightarrow> \<exists>c r. t = c # r \<and> (c = 45 \<or> is_digit c)"
proof -
  assume "number_text q = Some t"
  then consider "t = 45 # show_nat (nat \<lfloor>- q\<rfloor>)" | "t = show_nat (nat \<lfloor>q\<rfloor>)"
    by (auto simp: number_text_def split: if_splits)
  then show ?thesis
  proof cases
    case 1
    then show ?thesis by simp
  next
    case 2
    obtain c r where cr: "show_nat (nat \<lfloor>q\<rfloor>) = c # r"
      using show_nat_not_Nil [of "nat \<lfloor>q\<rfloor>"] by (cases "show_nat (nat \<lfloor>q\<rfloor>)") auto
    with show_nat_hd_digit [of "nat \<lfloor>q\<rfloor>"] have "is_digit c" by simp
    with 2 cr show ?thesis by simp
  qed
qed

lemma stringify_start:
  "JSON_stringify v = Some js \<Longrightarrow> \<exists>c r. js = c # r \<and> value_start c"
proof (cases v)
  case (JNumber q)
  assume "JSON_stringify v = Some js"
  with JNumber number_text_start [of q js] show ?thesis
    by (auto simp: value_start_def)
qed (auto simp: value_start_def ascii_def QuoteJSONString_def split: option.splits if_splits)

lemma stringify_elements_start:
  "vs \<noteq> [] \<Longrightarrow> stringify_elements vs = Some js \<Longrightarrow> \<exists>c r. js = c # r \<and> value_start c"
  by (cases vs) (auto split: option.splits if_splits dest!: stringify_start)

lemma stringify_members_start:
  "ms \<noteq> [] \<Longrightarrow> stringify_members ms = Some js \<Longrightarrow> \<exists>r. js = 34 # r"
  by (cases ms) (auto simp: QuoteJSONString_def split: option.splits if_splits)

lemma update_fresh: "k \<notin> fst ` set al \<Longrightarrow> AList.update k v al = al @ [(k, v)]"
  by (induction al) auto

lemma foldl_update_distinct:
  "distinct (map fst (acc @ ms)) \<Longrightarrow>
   foldl (\<lambda>acc (k, v). AList.update k v acc) acc ms = acc @ ms"
proof (induction ms arbitrary: acc)
  case Nil
  show ?case by simp
next
  case (Cons m ms)
  obtain k v where m: "m = (k, v)" by (cases m)
  from Cons.prems m have "k \<notin> fst ` set acc" by auto
  then have u: "AList.update k v acc = acc @ [(k, v)]" by (rule update_fresh)
  from Cons.prems m have "distinct (map fst ((acc @ [(k, v)]) @ ms))" by simp
  from Cons.IH [OF this] u m show ?case by simp
qed

lemma define_properties_distinct: "distinct (map fst ms) \<Longrightarrow> define_properties ms = ms"
  using foldl_update_distinct [of "[]" ms] by (simp add: define_properties_def)

lemma number_end_delim: "number_end (93 # r)" "number_end (44 # r)" "number_end (125 # r)" "number_end []"
  by (simp_all add: number_end_def is_digit_def)

lemma parse_value_number:
  assumes "number_text q = Some t" and "number_end rest"
  shows "parse_value (Suc n) (t @ rest) = Some (JNumber q, rest)"
proof -
  from number_text_start [OF assms(1)] obtain c r where t: "t = c # r" and c: "c = 45 \<or> is_digit c"
    by blast
  from c have "\<not> is_ws c" "c \<noteq> 123" "c \<noteq> 91" "c \<noteq> 34" "c \<noteq> 116" "c \<noteq> 102" "c \<noteq> 110"
    by (auto simp: is_ws_def is_digit_def)
  with parse_number_text [OF assms] t show ?thesis
    by (simp add: skip_ws_start)
qed

lemma parse_value_string:
  "parse_value (Suc n) (QuoteJSONString s @ rest) = Some (JString s, rest)"
  by (simp add: QuoteJSONString_def skip_ws_start is_ws_def parse_chars_quote)

lemma parse_value_words:
  "parse_value (Suc n) (ascii ''null'' @ rest) = Some (JNull, rest)"
  "parse_value (Suc n) (ascii ''true'' @ rest) = Some (JBool True, rest)"
  "parse_value (Suc n) (ascii ''false'' @ rest) = Some (JBool False, rest)"
  by (simp_all add: ascii_def skip_ws_start is_ws_def parse_literal_def)

lemma parse_value_array:
  assumes "value_start c"
  shows "parse_value (Suc n) (91 # (c # r) @ 93 # rest) =
           (case parse_elements n ((c # r) @ 93 # rest) of
              None \<Rightarrow> None | Some (vs, rest') \<Rightarrow> Some (JArray vs, rest'))"
proof -
  from assms have "\<not> is_ws c" by (rule value_start_not_ws)
  moreover from assms have "c \<noteq> 93" by (auto simp: value_start_def is_digit_def)
  ultimately show ?thesis by (simp add: skip_ws_start is_ws_def)
qed

lemma parse_value_object:
  "parse_value (Suc n) (123 # (34 # r) @ 125 # rest) =
           (case parse_members n ((34 # r) @ 125 # rest) of
              None \<Rightarrow> None | Some (ms, rest') \<Rightarrow> Some (JObject (define_properties ms), rest'))"
  by (simp add: skip_ws_start is_ws_def)

lemma parse_value_empty:
  "parse_value (Suc n) (91 # 93 # rest) = Some (JArray [], rest)"
  "parse_value (Suc n) (123 # 125 # rest) = Some (JObject [], rest)"
  by (simp_all add: skip_ws_start is_ws_def)

lemma parse_elements_step:
  assumes "parse_value n s = Some (v, c # r)"
  shows "c = 93 \<Longrightarrow> parse_elements (Suc n) s = Some ([v], r)"
    and "c = 44 \<Longrightarrow> parse_elements (Suc n) s = cons_result v (parse_elements n r)"
  using assms by (simp_all add: skip_ws_start is_ws_def)

lemma parse_members_step:
  assumes "parse_value n t = Some (v, c # r)"
  shows "c = 125 \<Longrightarrow> parse_members (Suc n) (QuoteJSONString k @ 58 # t) = Some ([(k, v)], r)"
    and "c = 44 \<Longrightarrow> parse_members (Suc n) (QuoteJSONString k @ 58 # t)
                        = cons_result (k, v) (parse_members n r)"
  using assms
  by (simp_all add: QuoteJSONString_def skip_ws_start is_ws_def parse_chars_quote)

lemma from_some_bound:
  assumes "\<And>n. N \<le> n \<Longrightarrow> f (Suc n) = y"
  shows "\<exists>M. \<forall>n\<ge>M. f n = y"
proof (intro exI [of _ "Suc N"] allI impI)
  fix n assume "Suc N \<le> n"
  then obtain n' where "n = Suc n'" "N \<le> n'" by (cases n) auto
  with assms show "f n = y" by simp
qed

lemmas parse_equations = parse_value.simps parse_elements.simps parse_members.simps

declare parse_equations [simp del]

lemma stringify_parses:
  "\<forall>js rest. JSON_stringify v = Some js \<longrightarrow> number_end rest \<longrightarrow>
     (\<exists>N. \<forall>n\<ge>N. parse_value n (js @ rest) = Some (v, rest))"
  "\<forall>js rest. vs \<noteq> [] \<longrightarrow> stringify_elements vs = Some js \<longrightarrow>
     (\<exists>N. \<forall>n\<ge>N. parse_elements n (js @ 93 # rest) = Some (vs, rest))"
  "\<forall>js rest. ms \<noteq> [] \<longrightarrow> stringify_members ms = Some js \<longrightarrow>
     (\<exists>N. \<forall>n\<ge>N. parse_members n (js @ 125 # rest) = Some (ms, rest))"
proof (induction v and vs and ms rule: JSON_stringify_stringify_elements_stringify_members.induct)
  case 1
  show ?case
    by (auto intro!: from_some_bound [of 0] simp: parse_value_words)
next
  case (2 b)
  show ?case
    by (cases b) (auto intro!: from_some_bound [of 0] simp: parse_value_words)
next
  case (3 q)
  show ?case
    by (auto intro!: from_some_bound [of 0] simp: parse_value_number)
next
  case (4 s)
  show ?case
    by (auto intro!: from_some_bound [of 0] simp: parse_value_string)
next
  case (5 vs)
  show ?case
  proof (intro allI impI)
    fix js rest
    assume st: "JSON_stringify (JArray vs) = Some js" and ne: "number_end rest"
    then obtain t where t: "stringify_elements vs = Some t" and js: "js = 91 # t @ [93]"
      by (auto split: option.splits)
    show "\<exists>N. \<forall>n\<ge>N. parse_value n (js @ rest) = Some (JArray vs, rest)"
    proof (cases "vs = []")
      case True
      with t js show ?thesis
        by (auto intro!: from_some_bound [of 0] simp: parse_value_empty)
    next
      case False
      from stringify_elements_start [OF False t] obtain c r where cr: "t = c # r"
        and c: "value_start c" by blast
      from 5 False t obtain N where
        N: "\<forall>n\<ge>N. parse_elements n (t @ 93 # rest) = Some (vs, rest)" by blast
      have "parse_value (Suc n) (js @ rest) = Some (JArray vs, rest)" if "N \<le> n" for n
        using parse_value_array [OF c, of n r rest] N that cr js by simp
      then show ?thesis by (rule from_some_bound)
    qed
  qed
next
  case (6 ms)
  show ?case
  proof (intro allI impI)
    fix js rest
    assume st: "JSON_stringify (JObject ms) = Some js" and ne: "number_end rest"
    then obtain t where d: "distinct (map fst ms)"
      and t: "stringify_members ms = Some t" and js: "js = 123 # t @ [125]"
      by (auto split: option.splits if_splits)
    show "\<exists>N. \<forall>n\<ge>N. parse_value n (js @ rest) = Some (JObject ms, rest)"
    proof (cases "ms = []")
      case True
      with t js show ?thesis
        by (auto intro!: from_some_bound [of 0] simp: parse_value_empty)
    next
      case False
      from stringify_members_start [OF False t] obtain r where r: "t = 34 # r" by blast
      from 6 [OF d] False t obtain N where
        N: "\<forall>n\<ge>N. parse_members n (t @ 125 # rest) = Some (ms, rest)" by blast
      have "parse_value (Suc n) (js @ rest) = Some (JObject ms, rest)" if "N \<le> n" for n
        using parse_value_object [of n r rest] N that r js define_properties_distinct [OF d]
        by simp
      then show ?thesis by (rule from_some_bound)
    qed
  qed
next
  case 7
  show ?case by simp
next
  case (8 v vs)
  show ?case
  proof (intro allI impI)
    fix js rest
    assume "v # vs \<noteq> []" and st: "stringify_elements (v # vs) = Some js"
    then obtain t where t: "JSON_stringify v = Some t"
      by (auto split: option.splits)
    show "\<exists>N. \<forall>n\<ge>N. parse_elements n (js @ 93 # rest) = Some (v # vs, rest)"
    proof (cases "vs = []")
      case True
      with st t have js: "js = t" by simp
      from 8(1) t number_end_delim(1) obtain N where
        N: "\<forall>n\<ge>N. parse_value n (t @ 93 # rest) = Some (v, 93 # rest)" by blast
      have "parse_elements (Suc n) (js @ 93 # rest) = Some (v # vs, rest)" if "N \<le> n" for n
        using parse_elements_step(1) [of n "t @ 93 # rest" v 93 rest] N that js True by simp
      then show ?thesis by (rule from_some_bound)
    next
      case False
      with st t obtain ts where ts: "stringify_elements vs = Some ts" and js: "js = t @ 44 # ts"
        by (auto split: option.splits)
      from 8(1) t number_end_delim(2) obtain N1 where
        N1: "\<forall>n\<ge>N1. parse_value n (t @ 44 # ts @ 93 # rest) = Some (v, 44 # ts @ 93 # rest)"
        by blast
      from 8(2) [OF t False] False ts obtain N2 where
        N2: "\<forall>n\<ge>N2. parse_elements n (ts @ 93 # rest) = Some (vs, rest)" by blast
      have "parse_elements (Suc n) (js @ 93 # rest) = Some (v # vs, rest)"
        if "max N1 N2 \<le> n" for n
      proof -
        from that N1 have "parse_value n (t @ 44 # ts @ 93 # rest) = Some (v, 44 # ts @ 93 # rest)"
          by simp
        from parse_elements_step(2) [OF this] that N2 js show ?thesis
          by (simp add: cons_result_def)
      qed
      then show ?thesis by (rule from_some_bound)
    qed
  qed
next
  case 9
  show ?case by simp
next
  case (10 m ms)
  obtain k v where m: "m = (k, v)" by (cases m)
  from 10(1) m have ihv: "\<forall>js rest. JSON_stringify v = Some js \<longrightarrow> number_end rest \<longrightarrow>
     (\<exists>N. \<forall>n\<ge>N. parse_value n (js @ rest) = Some (v, rest))" by simp
  show ?case
  proof (intro allI impI)
    fix js rest
    assume "m # ms \<noteq> []" and st: "stringify_members (m # ms) = Some js"
    with m obtain t where t: "JSON_stringify v = Some t"
      by (auto split: option.splits)
    show "\<exists>N. \<forall>n\<ge>N. parse_members n (js @ 125 # rest) = Some (m # ms, rest)"
    proof (cases "ms = []")
      case True
      with st t m have js: "js = QuoteJSONString k @ 58 # t" by simp
      from ihv t number_end_delim(3) obtain N where
        N: "\<forall>n\<ge>N. parse_value n (t @ 125 # rest) = Some (v, 125 # rest)" by blast
      have "parse_members (Suc n) (js @ 125 # rest) = Some (m # ms, rest)" if "N \<le> n" for n
        using parse_members_step(1) [of n "t @ 125 # rest" v 125 rest k] N that js True m by simp
      then show ?thesis by (rule from_some_bound)
    next
      case False
      with st t m obtain ts where ts: "stringify_members ms = Some ts"
        and js: "js = QuoteJSONString k @ 58 # t @ 44 # ts"
        by (auto split: option.splits)
      from ihv t number_end_delim(2) obtain N1 where
        N1: "\<forall>n\<ge>N1. parse_value n (t @ 44 # ts @ 125 # rest) = Some (v, 44 # ts @ 125 # rest)"
        by blast
      from t m have t': "JSON_stringify (snd m) = Some t" by simp
      from 10(2) [OF t' False] False ts obtain N2 where
        N2: "\<forall>n\<ge>N2. parse_members n (ts @ 125 # rest) = Some (ms, rest)" by blast
      have "parse_members (Suc n) (js @ 125 # rest) = Some (m # ms, rest)"
        if "max N1 N2 \<le> n" for n
      proof -
        from that N1 have "parse_value n (t @ 44 # ts @ 125 # rest) = Some (v, 44 # ts @ 125 # rest)"
          by simp
        from parse_members_step(2) [OF this, of k] that N2 js m show ?thesis
          by (simp add: cons_result_def)
      qed
      then show ?thesis by (rule from_some_bound)
    qed
  qed
qed

declare parse_equations [simp]

text \<open>\<open>JSON.parse\<close> reads the text of a value back as that value.\<close>

lemma JSON_parse_stringify:
  assumes "JSON_stringify v = Some js"
  shows "JSON_parse js = Some v"
proof -
  from stringify_parses(1) [of v] assms number_end_delim(4) obtain N where
    N: "\<forall>n\<ge>N. parse_value n (js @ []) = Some (v, [])" by blast
  define n where "n = max N (Suc (2 * length js))"
  from N have "parse_value n js = Some (v, [])" by (simp add: n_def)
  moreover have "parse_value (Suc (2 * length js)) js = parse_value n js"
    by (rule parse_value_fuel) (simp_all add: n_def)
  ultimately show ?thesis by (simp add: JSON_parse_def skip_ws_def)
qed

lemma stringify_object_braces:
  assumes "JSON_stringify (JObject ms) = Some js"
  shows "\<exists>b. js = LBRACE # b @ [RBRACE]"
  using assms by (auto simp: LBRACE_def RBRACE_def split: option.splits if_splits)

section \<open>Properties of \<open>parseAIResponse\<close>\<close>

lemma parseAIResponse_direct:
  "JSON_parse s = Some v \<Longrightarrow> parseAIResponse s = Inr v"
  by (simp add: parseAIResponse_def)

lemma brace_span_no_lbrace: "LBRACE \<notin> set s \<Longrightarrow> brace_span s = None"
proof -
  assume "LBRACE \<notin> set s"
  then have "dropWhile (\<lambda>c. c \<noteq> LBRACE) s = []" by (induction s) auto
  then show ?thesis unfolding brace_span_def by (simp only: list.case)
qed

lemma set_dropWhile_subset: "set (dropWhile P xs) \<subseteq> set xs"
  by (induction xs) auto

lemma brace_span_no_rbrace: "RBRACE \<notin> set s \<Longrightarrow> brace_span s = None"
proof -
  assume a: "RBRACE \<notin> set s"
  show ?thesis
  proof (cases "dropWhile (\<lambda>c. c \<noteq> LBRACE) s")
    case Nil
    then show ?thesis unfolding brace_span_def by (simp only: list.case)
  next
    case (Cons c rest)
    have "set (c # rest) \<subseteq> set s"
      using set_dropWhile_subset [of "\<lambda>c. c \<noteq> LBRACE" s] Cons by simp
    with a have "RBRACE \<notin> set rest" by auto
    with Cons show ?thesis unfolding brace_span_def by simp
  qed
qed

text \<open>
  Prose around a brace-delimited text: when the text before holds no \<open>{\<close> and the text
  after holds no \<open>}\<close>, the match is the brace-delimited text itself, whatever braces
  occur inside it.
\<close>

lemma brace_span_wrapped:
  assumes "LBRACE \<notin> set pre" and "RBRACE \<notin> set suf"
  shows "brace_span (pre @ LBRACE # body @ RBRACE # suf) = Some (LBRACE # body @ [RBRACE])"
proof -
  have d: "dropWhile (\<lambda>c. c \<noteq> LBRACE) (pre @ LBRACE # body @ RBRACE # suf)
             = LBRACE # body @ RBRACE # suf"
    using assms(1) by (induction pre) auto
  have "dropWhile (\<lambda>c. c \<noteq> RBRACE) (rev suf @ RBRACE # rev body) = RBRACE # rev body"
    using assms(2) by (auto simp add: dropWhile_append3)
  then have r: "rev (dropWhile (\<lambda>c. c \<noteq> RBRACE) (rev (body @ RBRACE # suf))) = body @ [RBRACE]"
    by simp
  show ?thesis
    unfolding brace_span_def d using r by simp
qed

text \<open>No JSON text starts with \<open>no\<close>: the direct parse of a text wrapped in this prose
  throws.\<close>

lemma JSON_parse_noise: "JSON_parse (ascii ''noise '' @ t) = None"
  by (simp add: JSON_parse_def ascii_def skip_ws_def is_ws_def parse_literal_def)

lemma noise_no_brace:
  "LBRACE \<notin> set (ascii ''noise '')" "RBRACE \<notin> set (ascii '' trailing'')"
  by (simp_all add: ascii_def LBRACE_def RBRACE_def)

text \<open>
  C2. For every string \<open>s\<close> that is a valid JSON object, \<open>parseAIResponse s\<close> returns
  the object that \<open>JSON.parse s\<close> yields, whatever its properties are: nothing is
  validated.
\<close>

theorem parseAIResponse_valid_object:
  assumes "JSON_parse s = Some (JObject ms)"
  shows "parseAIResponse s = Inr (JObject ms)"
  using assms by (rule parseAIResponse_direct)

theorem parseAIResponse_valid_object_witness:
  "JSON_parse (ascii ''{\"jobSummary\": 7}'') = Some (JObject [(ascii ''jobSummary'', JNumber 7)])
   \<and> parseAIResponse (ascii ''{\"jobSummary\": 7}'')
       = Inr (JObject [(ascii ''jobSummary'', JNumber 7)])"
proof -
  have p: "JSON_parse (ascii ''{\"jobSummary\": 7}'')
             = Some (JObject [(ascii ''jobSummary'', JNumber 7)])"
    by code_simp
  show ?thesis using parseAIResponse_valid_object [OF p] p by simp
qed

text \<open>
  The span of a text between prose, when its direct parse fails: whenever \<open>js\<close> is a
  brace-delimited text that \<open>JSON.parse\<close> reads as \<open>obj\<close>, no \<open>{\<close> comes before it and no
  \<open>}\<close> after it, the span from the first \<open>{\<close> to the last \<open>}\<close> is exactly \<open>js\<close>, and
  \<open>obj\<close> is returned.
\<close>

lemma parseAIResponse_span:
  assumes "JSON_parse js = Some obj" and "js = LBRACE # b @ [RBRACE]"
    and "LBRACE \<notin> set pre" and "RBRACE \<notin> set suf"
    and "JSON_parse (pre @ js @ suf) = None"
  shows "brace_span (pre @ js @ suf) = Some js
       \<and> parseAIResponse (pre @ js @ suf) = Inr obj"
proof -
  have sp: "brace_span (pre @ js @ suf) = Some js"
    using brace_span_wrapped [OF assms(3) assms(4), of b] assms(2) by simp
  with assms(1) assms(5) show ?thesis by (simp add: parseAIResponse_def)
qed

text \<open>
  With the prose \<open>noise\<close> and \<open>trailing\<close> the direct parse always fails; and the text
  that \<open>JSON.stringify\<close> gives for an object is one that \<open>JSON.parse\<close> reads back as that
  object, between braces.
\<close>

lemma parseAIResponse_wrapped:
  assumes "JSON_parse js = Some obj" and "js = LBRACE # b @ [RBRACE]"
  shows "JSON_parse (ascii ''noise '' @ js @ ascii '' trailing'') = None
       \<and> brace_span (ascii ''noise '' @ js @ ascii '' trailing'') = Some js
       \<and> parseAIResponse (ascii ''noise '' @ js @ ascii '' trailing'') = Inr obj"
  using parseAIResponse_span [OF assms noise_no_brace JSON_parse_noise] JSON_parse_noise
  by simp

lemma parseAIResponse_wrapped_stringify:
  assumes "JSON_stringify (JObject ms) = Some js"
  shows "parseAIResponse (ascii ''noise '' @ js @ ascii '' trailing'') = Inr (JObject ms)"
proof -
  from assms have "JSON_parse js = Some (JObject ms)" by (rule JSON_parse_stringify)
  moreover from assms obtain b where "js = LBRACE # b @ [RBRACE]"
    using stringify_object_braces by blast
  ultimately show ?thesis using parseAIResponse_wrapped by blast
qed

text \<open>
  C3, as stated: whatever prose without braces surrounds the text of an object, the
  object is recovered from the span between the first \<open>{\<close> and the last \<open>}\<close>. The prose
  \<open>[\<close> before and \<open>]\<close> after holds no brace, and the input is JSON itself: the direct
  parse succeeds, and what is returned is the array that holds the object, not the
  object.
\<close>

theorem parseAIResponse_brace_free_prose_counterexample:
  "LBRACE \<notin> set (ascii ''['') \<and> RBRACE \<notin> set (ascii ''['')
   \<and> LBRACE \<notin> set (ascii '']'') \<and> RBRACE \<notin> set (ascii '']'')
   \<and> JSON_parse (ascii ''{\"a\":1}'') = Some (JObject [(ascii ''a'', JNumber 1)])
   \<and> parseAIResponse (ascii ''['' @ ascii ''{\"a\":1}'' @ ascii '']'')
       = Inr (JArray [JObject [(ascii ''a'', JNumber 1)]])
   \<and> parseAIResponse (ascii ''['' @ ascii ''{\"a\":1}'' @ ascii '']'')
       \<noteq> Inr (JObject [(ascii ''a'', JNumber 1)])"
proof -
  have b: "LBRACE \<notin> set (ascii ''['') \<and> RBRACE \<notin> set (ascii ''['')
      \<and> LBRACE \<notin> set (ascii '']'') \<and> RBRACE \<notin> set (ascii '']'')"
    by (simp add: ascii_def LBRACE_def RBRACE_def)
  have p: "JSON_parse (ascii ''{\"a\":1}'') = Some (JObject [(ascii ''a'', JNumber 1)])"
    by code_simp
  have r: "parseAIResponse (ascii ''['' @ ascii ''{\"a\":1}'' @ ascii '']'')
       = Inr (JArray [JObject [(ascii ''a'', JNumber 1)]])"
    by code_simp
  from b p r show ?thesis by simp
qed

text \<open>
  C3, amended. For every object \<open>obj\<close>, every text \<open>js\<close> of it between braces that
  \<open>JSON.parse\<close> reads back as \<open>obj\<close> (as the text from \<open>JSON.stringify\<close> is), and every
  input \<open>pre + js + suf\<close> with no \<open>{\<close> in \<open>pre\<close>, no \<open>}\<close> in \<open>suf\<close>, on which the
  direct parse fails (as it does for \<open>"noise " + js + " trailing"\<close>): the span from the
  first \<open>{\<close> to the last \<open>}\<close> of the input is exactly \<open>js\<close>, and \<open>parseAIResponse\<close>
  returns \<open>obj\<close>.
\<close>

theorem parseAIResponse_brace_span_fallback:
  assumes "JSON_parse js = Some obj" and "js = LBRACE # b @ [RBRACE]"
    and "LBRACE \<notin> set pre" and "RBRACE \<notin> set suf"
    and "JSON_parse (pre @ js @ suf) = None"
  shows "brace_span (pre @ js @ suf) = Some js
       \<and> parseAIResponse (pre @ js @ suf) = Inr obj"
  using assms by (rule parseAIResponse_span)

theorem parseAIResponse_brace_span_fallback_witness:
  "JSON_parse (ascii ''{\"a\":\"}{\",\"n\":1.5}'')
     = Some (JObject [(ascii ''a'', JString (ascii ''}{'')), (ascii ''n'', JNumber (3 / 2))])
   \<and> JSON_parse (ascii ''noise {\"a\":\"}{\",\"n\":1.5} trailing'') = None
   \<and> brace_span (ascii ''noise {\"a\":\"}{\",\"n\":1.5} trailing'')
       = Some (ascii ''{\"a\":\"}{\",\"n\":1.5}'')
   \<and> parseAIResponse (ascii ''noise {\"a\":\"}{\",\"n\":1.5} trailing'')
       = Inr (JObject [(ascii ''a'', JString (ascii ''}{'')), (ascii ''n'', JNumber (3 / 2))])"
proof -
  have p: "JSON_parse (ascii ''{\"a\":\"}{\",\"n\":1.5}'')
     = Some (JObject [(ascii ''a'', JString (ascii ''}{'')), (ascii ''n'', JNumber (3 / 2))])"
    by code_simp
  have s: "ascii ''{\"a\":\"}{\",\"n\":1.5}''
             = LBRACE # ascii ''\"a\":\"}{\",\"n\":1.5'' @ [RBRACE]"
    by (simp add: ascii_def LBRACE_def RBRACE_def)
  have e: "ascii ''noise '' @ ascii ''{\"a\":\"}{\",\"n\":1.5}'' @ ascii '' trailing''
             = ascii ''noise {\"a\":\"}{\",\"n\":1.5} trailing''"
    by (simp add: ascii_def)
  have d: "JSON_parse (ascii ''noise '' @ ascii ''{\"a\":\"}{\",\"n\":1.5}'' @ ascii '' trailing'')
             = None"
    by (rule JSON_parse_noise)
  show ?thesis
    using parseAIResponse_brace_span_fallback [OF p s noise_no_brace d] p d e by simp
qed

text \<open>
  C4, as stated: when both the direct parse and the fallback fail, the failure carries
  the raw input. It does not. The inputs \<open>zzz\<close> and \<open>yyy\<close> hold no brace and are not
  JSON; both calls throw the same \<open>Error\<close>, whose only content is the fixed message.
  On \<open>{x}\<close> the span is found and is not JSON: what is thrown is the \<open>SyntaxError\<close> of
  the second \<open>JSON.parse\<close>, not that \<open>Error\<close>.
\<close>

theorem parseAIResponse_failure_counterexample:
  "parseAIResponse (ascii ''zzz'') = Inl (Error (ascii ''Failed to parse AI response''))
   \<and> parseAIResponse (ascii ''yyy'') = parseAIResponse (ascii ''zzz'')
   \<and> parseAIResponse (ascii ''{x}'') = Inl SyntaxError"
  by code_simp

text \<open>
  C4, amended. For every input on which the direct parse fails and in which no \<open>}\<close>
  follows a \<open>{\<close> (in particular one that holds no \<open>{\<close>, or no \<open>}\<close>, at all),
  \<open>parseAIResponse\<close> throws an \<open>Error\<close> with the fixed message
  \<open>Failed to parse AI response\<close>; the error is the same for every such input.
\<close>

theorem parseAIResponse_failure:
  assumes "JSON_parse s = None"
    and "brace_span s = None \<or> LBRACE \<notin> set s \<or> RBRACE \<notin> set s"
  shows "parseAIResponse s = Inl (Error (ascii ''Failed to parse AI response''))"
proof -
  from assms(2) have "brace_span s = None"
    using brace_span_no_lbrace brace_span_no_rbrace by blast
  with assms(1) show ?thesis by (simp add: parseAIResponse_def)
qed

theorem parseAIResponse_failure_witness:
  "JSON_parse (ascii ''Sorry, no analysis.'') = None
   \<and> LBRACE \<notin> set (ascii ''Sorry, no analysis.'')
   \<and> parseAIResponse (ascii ''Sorry, no analysis.'')
       = Inl (Error (ascii ''Failed to parse AI response''))"
proof -
  have p: "JSON_parse (ascii ''Sorry, no analysis.'') = None" by code_simp
  have b: "LBRACE \<notin> set (ascii ''Sorry, no analysis.'')"
    by (simp add: ascii_def LBRACE_def)
  show ?thesis using parseAIResponse_failure [OF p] p b by simp
qed

text \<open>
  C8, as stated: a direct parse that yields a value that is not an object is not
  returned. It is: \<open>42\<close> and \<open>null\<close> are JSON texts, and \<open>parseAIResponse\<close> returns the
  number and the null value that \<open>JSON.parse\<close> yields.
\<close>

theorem parseAIResponse_non_object_counterexample:
  "parseAIResponse (ascii ''42'') = Inr (JNumber 42)
   \<and> parseAIResponse (ascii ''null'') = Inr JNull"
  by code_simp

text \<open>
  C8, amended. \<open>parseAIResponse\<close> returns the result of the direct parse whenever that
  parse succeeds, whatever kind of JSON value it yields: there is no check that the
  value is an object.
\<close>

theorem parseAIResponse_returns_direct_parse:
  assumes "JSON_parse s = Some v"
  shows "parseAIResponse s = Inr v"
  using assms by (simp add: parseAIResponse_def)

theorem parseAIResponse_returns_direct_parse_witness:
  "JSON_parse (ascii ''\"fine\"'') = Some (JString (ascii ''fine''))
   \<and> parseAIResponse (ascii ''\"fine\"'') = Inr (JString (ascii ''fine''))"
proof -
  have p: "JSON_parse (ascii ''\"fine\"'') = Some (JString (ascii ''fine''))"
    by code_simp
  show ?thesis using parseAIResponse_returns_direct_parse [OF p] p by simp
qed

section \<open>Properties of the report generator\<close>

lemma seq_Nil [simp]: "seq [] st = st" by (simp add: seq_def)
lemma seq_Cons [simp]: "seq (f # fs) st = seq fs (f st)" by (simp add: seq_def)

lemmas pdf_ops =
  addPage_def setPage_def setFont_def setFontSize_def setTextColor_def setFillColor_def put_def
  rect_def roundedRect_def circle_def pdf_text_def pdf_text_center_def advance_def

lemmas pdf_blocks =
  header_def candidateInfo_def jobInfo_def scoreBadge_def careerSection_def locationSection_def
  credibilitySection_def when_true_def when_present_def addSectionTitle_def addParagraph_def
  addBulletList_def addBulletItem_def addKeyValue_def subList_def addNewPageIfNeeded_def
  new_jsPDF_def margin_def contentWidth_def truthy_def nonempty_def or_else_def items_of_def
  text_of_def company_def

lemmas samples =
  A4_short_lines_def no_analysis_def jane_def designer_def overflow_analysis_def
  empty_career_analysis_def

lemma split_lines_not_Nil: "split_lines s \<noteq> []"
  by (induction s) (auto split: list.splits)

lemma split_lines_no_feed: "10 \<notin> set s \<Longrightarrow> split_lines s = [s]"
  by (induction s) auto

lemma split_lines_x: "split_lines (120 # 10 # s) = [120] # split_lines s"
  using split_lines_not_Nil [of s] by (cases "split_lines s") auto

lemma split_lines_text_of_lines: "split_lines (text_of_lines (Suc n)) = replicate (Suc n) [120]"
  unfolding text_of_lines_def by (induction n) (simp_all add: split_lines_x)

lemma split_lines_text_of_lines_numeral:
  "split_lines (text_of_lines (numeral k)) = replicate (numeral k) [120]"
  using split_lines_text_of_lines [of "pred_numeral k"] by (simp add: numeral_eq_Suc)

lemma text_of_lines_not_Nil: "text_of_lines n \<noteq> []"
  by (simp add: text_of_lines_def)

lemma stampFooter_effect:
  "numPages (stampFooter E n i st) = numPages st
   \<and> drawn (stampFooter E n i st) = drawn st @
        [(i, Text [footerText i n] (pageWidth E / 2) (pageHeight E - 10) AlignCenter
               \<lparr>bold = False, fontSize = 8, textColor = (150, 150, 150)\<rparr>)]"
  by (simp add: stampFooter_def pdf_ops)

lemma fold_stampFooter:
  "numPages (fold (stampFooter E n) js st) = numPages st
   \<and> drawn (fold (stampFooter E n) js st) = drawn st @
        map (\<lambda>i. (i, Text [footerText i n] (pageWidth E / 2) (pageHeight E - 10) AlignCenter
               \<lparr>bold = False, fontSize = 8, textColor = (150, 150, 150)\<rparr>)) js"
  by (induction js arbitrary: st) (simp_all add: stampFooter_effect)

lemma footerPass_effect:
  "numPages (footerPass E st) = numPages st
   \<and> drawn (footerPass E st) = drawn st @
        map (\<lambda>i. (i, Text [footerText i (numPages st)] (pageWidth E / 2) (pageHeight E - 10)
               AlignCenter \<lparr>bold = False, fontSize = 8, textColor = (150, 150, 150)\<rparr>))
          [1 ..< Suc (numPages st)]"
  unfolding footerPass_def internal_pages_length_def Let_def
  using fold_stampFooter [of E "numPages st" "[1 ..< Suc (numPages st)]" st] by simp

lemma generateAnalysisPDF_drawn:
  "drawn (generateAnalysisPDF E a p j) = drawn (footerPass E (contentPass E a p j))"
  "numPages (generateAnalysisPDF E a p j) = numPages (footerPass E (contentPass E a p j))"
  by (simp_all add: generateAnalysisPDF_def save_def)

text \<open>
  \<open>addKeyValue\<close> draws its label and its value at the current \<open>y\<close> of the current
  page, wherever that is: it never adds a page.
\<close>

lemma addKeyValue_effect:
  "numPages (addKeyValue E l v st) = numPages st
   \<and> curPage (addKeyValue E l v st) = curPage st
   \<and> drawn (addKeyValue E l v st) = drawn st @
        [(curPage st,
          Text (splitTextToSize E \<lparr>bold = True, fontSize = 10, textColor = (100, 100, 100)\<rparr>
                  (l @ ascii '':'') 50)
            margin (cur_y st) AlignLeft
            \<lparr>bold = True, fontSize = 10, textColor = (100, 100, 100)\<rparr>),
         (curPage st,
          Text (splitTextToSize E \<lparr>bold = False, fontSize = 10, textColor = (60, 60, 60)\<rparr>
                  v (contentWidth E - 55))
            (margin + 55) (cur_y st) AlignLeft
            \<lparr>bold = False, fontSize = 10, textColor = (60, 60, 60)\<rparr>)]"
  by (simp add: addKeyValue_def Let_def pdf_ops)

text \<open>
  The other add operations check first: after \<open>addNewPageIfNeeded\<close> the block fits above
  the bottom margin, or \<open>y\<close> is the top margin of a new page.
\<close>

lemma addNewPageIfNeeded_effect:
  "cur_y (addNewPageIfNeeded E h st) + h \<le> pageHeight E - margin
   \<or> (cur_y (addNewPageIfNeeded E h st) = margin
       \<and> numPages (addNewPageIfNeeded E h st) = numPages st + 1
       \<and> curPage (addNewPageIfNeeded E h st) = numPages st + 1)"
  by (simp add: addNewPageIfNeeded_def addPage_def)

lemma addSectionTitle_effect:
  "\<exists>y. drawn (addSectionTitle E t st) = drawn st @
             [(curPage (addSectionTitle E t st), Text [t] margin y AlignLeft
                 \<lparr>bold = True, fontSize = 14, textColor = (80, 80, 80)\<rparr>)]
         \<and> (y + 20 \<le> pageHeight E - margin \<or> y = margin)"
  by (simp add: addSectionTitle_def addNewPageIfNeeded_def pdf_ops)

lemma addBulletItem_effect:
  "\<exists>ls y. drawn (addBulletItem E c t st) = drawn st @
             [(curPage (addBulletItem E c t st), Circle (margin + 2) (y - 3 / 2) (3 / 2) c),
              (curPage (addBulletItem E c t st), Text ls (margin + 8) y AlignLeft (style st))]
         \<and> (y + (real (length ls) * 5 + 3) \<le> pageHeight E - margin \<or> y = margin)"
  by (simp add: addBulletItem_def addNewPageIfNeeded_def Let_def pdf_ops)

lemma addParagraph_effect:
  "\<exists>ls y. drawn (addParagraph E t st) = drawn st @
             [(curPage (addParagraph E t st), Text ls margin y AlignLeft
                 \<lparr>bold = False, fontSize = 10, textColor = (60, 60, 60)\<rparr>)]
         \<and> (y + (real (length ls) * 5 + 5) \<le> pageHeight E - margin \<or> y = margin)"
  by (simp add: addParagraph_def addNewPageIfNeeded_def Let_def pdf_ops)

lemma overflow_content:
  "numPages (contentPass A4_short_lines overflow_analysis jane designer) = 1"
  "(1, Text [ascii ''Commitment:''] 20 300 AlignLeft
        \<lparr>bold = True, fontSize = 10, textColor = (100, 100, 100)\<rparr>)
    \<in> set (drawn (contentPass A4_short_lines overflow_analysis jane designer))"
  by (simp_all add: contentPass_def pdf_blocks pdf_ops samples Let_def
        split_lines_text_of_lines_numeral split_lines_no_feed ascii_def text_of_lines_not_Nil)

text \<open>
  C1. Every add operation checks the room that is left and starts a new page before it
  draws, so that no block starts below the page. The section title, the paragraph and
  the bulleted list do so, by \<open>addNewPageIfNeeded\<close>. \<open>addKeyValue\<close> does not, and of its
  call sites only the one for the role alignment checks beforehand. Run on a summary of
  27 lines, the generator draws the heading of the location section at 256 and its
  three values of three lines each at 264, 282 and 300, all on page 1: the last one
  starts below the page height of 297, and no page is added.
\<close>

theorem addKeyValue_draws_below_the_page:
  "pageHeight A4_short_lines = 297
   \<and> numPages (generateAnalysisPDF A4_short_lines overflow_analysis jane designer) = 1
   \<and> (1, Text [ascii ''Commitment:''] 20 300 AlignLeft
            \<lparr>bold = True, fontSize = 10, textColor = (100, 100, 100)\<rparr>)
        \<in> set (drawn (generateAnalysisPDF A4_short_lines overflow_analysis jane designer))"
  using overflow_content footerPass_effect [of A4_short_lines "contentPass A4_short_lines overflow_analysis jane designer"]
  by (simp add: generateAnalysisPDF_drawn A4_short_lines_def)

text \<open>
  C5. The footer pass leaves the number of pages as the content pass produced it, and
  adds to the drawing calls of the content pass exactly one centred text for each page
  \<open>i\<close> from 1 to that number \<open>n\<close>, on page \<open>i\<close>, reading
  \<open>Page i of n\<close>, a bullet and \<open>Torre Candidate Fit Analysis\<close>.
\<close>

theorem footer_on_every_page:
  "let content = contentPass E a p j; n = numPages content
   in numPages (generateAnalysisPDF E a p j) = n
      \<and> drawn (generateAnalysisPDF E a p j) = drawn content @
           map (\<lambda>i. (i, Text [ascii ''Page '' @ show_nat i @ ascii '' of '' @ show_nat n
                               @ [32, 8226, 32] @ ascii ''Torre Candidate Fit Analysis'']
                          (pageWidth E / 2) (pageHeight E - 10) AlignCenter
                          \<lparr>bold = False, fontSize = 8, textColor = (150, 150, 150)\<rparr>))
             [1 ..< Suc n]"
  unfolding Let_def generateAnalysisPDF_drawn
  using footerPass_effect [of E "contentPass E a p j"]
  by (simp add: footerText_def ascii_def)

lemma two_page_content:
  "numPages (contentPass A4_short_lines two_page_analysis jane designer) = 2"
  "length (drawn (contentPass A4_short_lines two_page_analysis jane designer)) = 12"
  by (simp_all add: contentPass_def pdf_blocks pdf_ops samples two_page_analysis_def Let_def
        split_lines_text_of_lines_numeral split_lines_no_feed ascii_def text_of_lines_not_Nil)

theorem footer_on_every_page_witness:
  "numPages (generateAnalysisPDF A4_short_lines two_page_analysis jane designer) = 2
   \<and> drop 12 (drawn (generateAnalysisPDF A4_short_lines two_page_analysis jane designer)) =
       [(1, Text [ascii ''Page 1 of 2 '' @ [8226] @ ascii '' Torre Candidate Fit Analysis'']
              105 287 AlignCenter \<lparr>bold = False, fontSize = 8, textColor = (150, 150, 150)\<rparr>),
        (2, Text [ascii ''Page 2 of 2 '' @ [8226] @ ascii '' Torre Candidate Fit Analysis'']
              105 287 AlignCenter \<lparr>bold = False, fontSize = 8, textColor = (150, 150, 150)\<rparr>)]"
  using footer_on_every_page [of A4_short_lines two_page_analysis jane designer] two_page_content
  by (simp add: Let_def show_nat_small A4_short_lines_def ascii_def upt_conv_Cons)




subsection \<open>The file name\<close>

lemma underscore_not_space: "\<not> is_space 95"
  by (simp add: is_space_def)

lemma replace_ws_no_space: "\<forall>x\<in>set (replace_ws s). \<not> is_space x"
proof (induction s rule: replace_ws.induct)
  case 1
  then show ?case by simp
next
  case (2 c cs)
  show ?case
  proof (cases "is_space c")
    case True
    with 2 show ?thesis by (simp add: underscore_not_space)
  next
    case False
    with 2 show ?thesis by simp
  qed
qed

lemma replace_ws_length: "length (replace_ws s) \<le> length s"
proof (induction s rule: replace_ws.induct)
  case 1
  then show ?case by simp
next
  case (2 c cs)
  have "length (dropWhile is_space cs) \<le> length cs" by (rule length_dropWhile_le)
  with 2 show ?case by (auto split: if_splits)
qed

lemma replace_ws_word: "\<forall>c\<in>set w. \<not> is_space c \<Longrightarrow> replace_ws (w @ s) = w @ replace_ws s"
  by (induction w) auto

lemma dropWhile_run:
  "\<forall>c\<in>set r. is_space c \<Longrightarrow> s = [] \<or> \<not> is_space (hd s) \<Longrightarrow> dropWhile is_space (r @ s) = s"
  by (induction r) (auto simp: dropWhile_eq_self_iff)

lemma replace_ws_run:
  assumes "r \<noteq> []" and "\<forall>c\<in>set r. is_space c" and "s = [] \<or> \<not> is_space (hd s)"
  shows "replace_ws (r @ s) = 95 # replace_ws s"
proof (cases r)
  case Nil
  with assms(1) show ?thesis by simp
next
  case (Cons c r')
  from assms Cons have c: "is_space c" and r': "\<forall>c\<in>set r'. is_space c" by simp_all
  have "dropWhile is_space (r' @ s) = s"
    using r' assms(3) by (rule dropWhile_run)
  with Cons c show ?thesis by simp
qed

lemma replace_ws_Nil_iff: "replace_ws n = [] \<longleftrightarrow> n = []"
  by (cases n) auto

lemma fileName_parts:
  "fileName p j =
     ascii ''Candidate_Fit_''
       @ (case person_name p of
            None \<Rightarrow> ascii ''Unknown''
          | Some n \<Rightarrow> if n = [] then ascii ''Unknown'' else replace_ws n)
       @ ascii ''_'' @ take 30 (replace_ws (objective j)) @ ascii ''.pdf''"
  by (cases "person_name p")
     (simp_all add: fileName_def or_else_def truthy_def substring0_def replace_ws_Nil_iff)

lemma generateAnalysisPDF_savedAs: "savedAs (generateAnalysisPDF E a p j) = Some (fileName p j)"
  by (simp add: generateAnalysisPDF_def save_def)

lemma replace_ws_word_run:
  assumes "\<forall>c\<in>set w. \<not> is_space c" and "r \<noteq> []" and "\<forall>c\<in>set r. is_space c"
    and "s = [] \<or> \<not> is_space (hd s)"
  shows "replace_ws (w @ r @ s) = w @ [95] @ replace_ws s"
proof -
  have "replace_ws (w @ r @ s) = w @ replace_ws (r @ s)"
    using assms(1) by (rule replace_ws_word)
  moreover have "replace_ws (r @ s) = 95 # replace_ws s"
    using assms(2-4) by (rule replace_ws_run)
  ultimately show ?thesis by simp
qed

text \<open>
  C9, as stated: for every candidate name, the name of the exported file holds the
  candidate name with its white space replaced. The name comes through
  \<open>name?.replace(/\s+/g, "_") || "Unknown"\<close>: for the candidate whose name is the empty
  string the file is saved as \<open>Candidate_Fit_Unknown_Senior_Designer.pdf\<close>, where the
  name with its white space replaced, between the same prefix and suffix, would give
  \<open>Candidate_Fit__Senior_Designer.pdf\<close>.
\<close>

theorem exported_file_name_counterexample:
  "savedAs (generateAnalysisPDF A4_short_lines no_analysis unnamed designer)
     = Some (ascii ''Candidate_Fit_Unknown_Senior_Designer.pdf'')
   \<and> person_name unnamed = Some []
   \<and> ascii ''Candidate_Fit_'' @ replace_ws [] @ ascii ''_''
         @ take 30 (replace_ws (objective designer)) @ ascii ''.pdf''
       = ascii ''Candidate_Fit__Senior_Designer.pdf''
   \<and> savedAs (generateAnalysisPDF A4_short_lines no_analysis unnamed designer)
       \<noteq> Some (ascii ''Candidate_Fit_'' @ replace_ws [] @ ascii ''_''
                 @ take 30 (replace_ws (objective designer)) @ ascii ''.pdf'')"
  by (simp add: generateAnalysisPDF_def save_def fileName_def or_else_def truthy_def
        substring0_def unnamed_def designer_def ascii_def is_space_def)

text \<open>
  C9, amended. For every environment, analysis, candidate and job, the generator saves
  the document under the name \<open>Candidate_Fit_\<close>, the name part, an underscore, the
  first 30 characters of the job objective with its white space replaced, and \<open>.pdf\<close>.
  The name part is the candidate name with its white space replaced, or \<open>Unknown\<close> when
  the name is absent or empty. The objective part is at most 30 characters long. The
  replacement leaves no white space, in any string, and turns a word followed by a run
  of white space into the word and one underscore.
\<close>

theorem exported_file_name:
  "savedAs (generateAnalysisPDF E a p j) =
     Some (ascii ''Candidate_Fit_''
             @ (case person_name p of
                  None \<Rightarrow> ascii ''Unknown''
                | Some n \<Rightarrow> if n = [] then ascii ''Unknown'' else replace_ws n)
             @ ascii ''_'' @ take 30 (replace_ws (objective j)) @ ascii ''.pdf'')
   \<and> length (take 30 (replace_ws (objective j))) \<le> 30
   \<and> (\<forall>n. \<forall>c \<in> set (replace_ws n) \<union> set (take 30 (replace_ws (objective j))). \<not> is_space c)
   \<and> (\<forall>w r s. (\<forall>c\<in>set w. \<not> is_space c) \<and> r \<noteq> [] \<and> (\<forall>c\<in>set r. is_space c)
          \<and> (s = [] \<or> \<not> is_space (hd s))
        \<longrightarrow> replace_ws (w @ r @ s) = w @ [95] @ replace_ws s)"
proof -
  have 1: "savedAs (generateAnalysisPDF E a p j) =
     Some (ascii ''Candidate_Fit_''
             @ (case person_name p of
                  None \<Rightarrow> ascii ''Unknown''
                | Some n \<Rightarrow> if n = [] then ascii ''Unknown'' else replace_ws n)
             @ ascii ''_'' @ take 30 (replace_ws (objective j)) @ ascii ''.pdf'')"
    unfolding generateAnalysisPDF_savedAs by (simp only: fileName_parts)
  have 2: "length (take 30 (replace_ws (objective j))) \<le> 30" by simp
  have 3: "\<forall>n. \<forall>c \<in> set (replace_ws n) \<union> set (take 30 (replace_ws (objective j))). \<not> is_space c"
  proof (intro allI)
    fix n
    show "\<forall>c \<in> set (replace_ws n) \<union> set (take 30 (replace_ws (objective j))). \<not> is_space c"
      using replace_ws_no_space [of n] replace_ws_no_space [of "objective j"]
      by (auto dest: in_set_takeD)
  qed
  have 4: "\<forall>w r s. (\<forall>c\<in>set w. \<not> is_space c) \<and> r \<noteq> [] \<and> (\<forall>c\<in>set r. is_space c)
              \<and> (s = [] \<or> \<not> is_space (hd s))
            \<longrightarrow> replace_ws (w @ r @ s) = w @ [95] @ replace_ws s"
    using replace_ws_word_run by blast
  from 1 2 3 4 show ?thesis by blast
qed

theorem exported_file_name_witness:
  "savedAs (generateAnalysisPDF A4_short_lines no_analysis jane designer)
     = Some (ascii ''Candidate_Fit_Jane_Doe_Senior_Designer.pdf'')
   \<and> savedAs (generateAnalysisPDF A4_short_lines no_analysis jane platform_engineer)
     = Some (ascii ''Candidate_Fit_Jane_Doe_Senior_Staff_Software_Engineer.pdf'')
   \<and> replace_ws (ascii ''Jane'' @ [32, 9, 32] @ ascii ''Doe'') = ascii ''Jane_Doe''"
proof -
  note t = exported_file_name [of A4_short_lines no_analysis jane designer]
  note u = exported_file_name [of A4_short_lines no_analysis jane platform_engineer]
  have w: "\<forall>c\<in>set (ascii ''Jane''). \<not> is_space c" "[32, 9, 32] \<noteq> ([] :: nat list)"
      "\<forall>c\<in>set [32, 9, 32]. is_space c" "ascii ''Doe'' = [] \<or> \<not> is_space (hd (ascii ''Doe''))"
    by (simp_all add: ascii_def is_space_def)
  from t have "(\<forall>c\<in>set (ascii ''Jane''). \<not> is_space c) \<and> [32, 9, 32] \<noteq> ([] :: nat list)
       \<and> (\<forall>c\<in>set [32, 9, 32]. is_space c) \<and> (ascii ''Doe'' = [] \<or> \<not> is_space (hd (ascii ''Doe'')))
      \<longrightarrow> replace_ws (ascii ''Jane'' @ [32, 9, 32] @ ascii ''Doe'')
                 = ascii ''Jane'' @ [95] @ replace_ws (ascii ''Doe'')"
    by (elim conjE allE)
  with w have "replace_ws (ascii ''Jane'' @ [32, 9, 32] @ ascii ''Doe'')
                 = ascii ''Jane'' @ [95] @ replace_ws (ascii ''Doe'')"
    by (elim impE) (intro conjI)
  moreover have "replace_ws (ascii ''Doe'') = ascii ''Doe''"
    by (simp add: ascii_def is_space_def)
  ultimately have c3: "replace_ws (ascii ''Jane'' @ [32, 9, 32] @ ascii ''Doe'') = ascii ''Jane_Doe''"
    by (simp add: ascii_def)
  from t have "savedAs (generateAnalysisPDF A4_short_lines no_analysis jane designer) =
     Some (ascii ''Candidate_Fit_''
             @ (case person_name jane of
                  None \<Rightarrow> ascii ''Unknown''
                | Some n \<Rightarrow> if n = [] then ascii ''Unknown'' else replace_ws n)
             @ ascii ''_'' @ take 30 (replace_ws (objective designer)) @ ascii ''.pdf'')"
    by (elim conjE)
  then have c1: "savedAs (generateAnalysisPDF A4_short_lines no_analysis jane designer)
     = Some (ascii ''Candidate_Fit_Jane_Doe_Senior_Designer.pdf'')"
    by (simp add: jane_def designer_def ascii_def is_space_def)
  from u have "savedAs (generateAnalysisPDF A4_short_lines no_analysis jane platform_engineer) =
     Some (ascii ''Candidate_Fit_''
             @ (case person_name jane of
                  None \<Rightarrow> ascii ''Unknown''
                | Some n \<Rightarrow> if n = [] then ascii ''Unknown'' else replace_ws n)
             @ ascii ''_'' @ take 30 (replace_ws (objective platform_engineer)) @ ascii ''.pdf'')"
    by (elim conjE)
  then have c2: "savedAs (generateAnalysisPDF A4_short_lines no_analysis jane platform_engineer)
     = Some (ascii ''Candidate_Fit_Jane_Doe_Senior_Staff_Software_Engineer.pdf'')"
    by (simp add: jane_def platform_engineer_def ascii_def is_space_def)
  from c1 c2 c3 show ?thesis by blast
qed

section \<open>Properties of \<open>POST /api/ai\<close>\<close>

lemma POST_missing_prompt:
  "b \<noteq> JNull \<Longrightarrow> \<not> js_truthy (property b (ascii ''prompt'')) \<Longrightarrow>
   POST gm gen (Inr b) = (json_response 400 (ErrorBody (ascii ''Prompt is required'')), [])"
  by (cases b) (simp_all add: POST_def destructure_def)

text \<open>The upstream call is made once, with these arguments; what it throws is caught.\<close>

lemma POST_upstream_call:
  assumes "b \<noteq> JNull" and "js_truthy (property b (ascii ''prompt''))"
  shows "POST gm gen (Inr b) =
           (let args = \<lparr>arg_model = modelName gm (property b (ascii ''model'')),
                         arg_system = property b (ascii ''systemPrompt''),
                         arg_prompt = the (property b (ascii ''prompt''))\<rparr>
            in case gen args of
                 Inl e \<Rightarrow> (on_error e, [args])
               | Inr r \<Rightarrow>
                   (json_response 200
                      (ResultBody (result_text r) (result_usage r) (result_finishReason r)),
                    [args]))"
  using assms by (cases b) (simp_all add: POST_def destructure_def Let_def)

lemma POST_request_throws: "POST gm gen (Inl e) = (on_error e, [])"
  by (simp add: POST_def)

lemma POST_null_body:
  "POST gm gen (Inr JNull) = (json_response 500 (ErrorBody destructure_null_message), [])"
  by (simp add: POST_def destructure_def on_error_def destructure_null_message_def ascii_def)

text \<open>
  C7, as stated: a missing \<open>prompt\<close> is answered with 400, and an error other than the
  unset credential with that error's message. The handler does not look at the
  credential but at the message: an upstream error that says
  \<open>API key not valid. Please pass a valid API key.\<close>, as for a credential that is set and
  wrong, is answered with the message for an unset credential. And the body \<open>null\<close> has
  no \<open>prompt\<close>: taking it apart throws before the test of the prompt, and the answer is
  500.
\<close>

theorem POST_counterexample:
  "POST None (\<lambda>_. Inl (ThrownError (ascii ''API key not valid. Please pass a valid API key.'')))
        (Inr (JObject [(ascii ''prompt'', JString (ascii ''Hello''))]))
   = (json_response 500
        (ErrorBody (ascii ''Google API key not configured. Set GOOGLE_GENERATIVE_AI_API_KEY environment variable.'')),
      [\<lparr>arg_model = JString (ascii ''gemini-2.5-flash-lite''), arg_system = None,
        arg_prompt = JString (ascii ''Hello'')\<rparr>])
   \<and> POST None (\<lambda>_. Inl (ThrownError (ascii ''API key not valid. Please pass a valid API key.'')))
        (Inr JNull)
   = (json_response 500
        (ErrorBody (ascii ''Cannot destructure property 'prompt' of 'body' as it is null.'')), [])"
  by (simp add: POST_def destructure_def property_def js_truthy_def truthy_def on_error_def
        modelName_def destructure_null_message_def ascii_def Let_def)

text \<open>
  C7, amended. A body other than \<open>null\<close> without a truthy \<open>prompt\<close> is answered with 400,
  and no upstream call is made. When \<open>request.json()\<close> throws, or when the one upstream
  call, made with the prompt, the system prompt and the model name, throws, the answer is
  that of the \<open>catch\<close> block: 500 with the configuration message for an \<open>Error\<close> whose
  message contains \<open>API key\<close>, 500 with the error's own message for any other \<open>Error\<close>,
  and 500 with \<open>An unexpected error occurred\<close> for a thrown value that is not an
  \<open>Error\<close>.
\<close>

theorem POST_responses:
  "(b \<noteq> JNull \<and> \<not> js_truthy (property b (ascii ''prompt''))
      \<longrightarrow> POST gm gen (Inr b) = (json_response 400 (ErrorBody (ascii ''Prompt is required'')), []))
   \<and> (b \<noteq> JNull \<and> js_truthy (property b (ascii ''prompt''))
        \<and> gen \<lparr>arg_model = modelName gm (property b (ascii ''model'')),
                 arg_system = property b (ascii ''systemPrompt''),
                 arg_prompt = the (property b (ascii ''prompt''))\<rparr> = Inl e
      \<longrightarrow> POST gm gen (Inr b) =
            (on_error e,
             [\<lparr>arg_model = modelName gm (property b (ascii ''model'')),
               arg_system = property b (ascii ''systemPrompt''),
               arg_prompt = the (property b (ascii ''prompt''))\<rparr>]))
   \<and> POST gm gen (Inl e) = (on_error e, [])
   \<and> on_error (ThrownError m) =
         json_response 500
           (ErrorBody (if js_includes m (ascii ''API key'')
                       then ascii ''Google API key not configured. Set GOOGLE_GENERATIVE_AI_API_KEY environment variable.''
                       else m))
   \<and> on_error ThrownOther = json_response 500 (ErrorBody (ascii ''An unexpected error occurred''))"
proof -
  have 1: "b \<noteq> JNull \<and> \<not> js_truthy (property b (ascii ''prompt''))
      \<longrightarrow> POST gm gen (Inr b) = (json_response 400 (ErrorBody (ascii ''Prompt is required'')), [])"
    using POST_missing_prompt [of b gm gen] by blast
  have 2: "b \<noteq> JNull \<and> js_truthy (property b (ascii ''prompt''))
        \<and> gen \<lparr>arg_model = modelName gm (property b (ascii ''model'')),
                 arg_system = property b (ascii ''systemPrompt''),
                 arg_prompt = the (property b (ascii ''prompt''))\<rparr> = Inl e
      \<longrightarrow> POST gm gen (Inr b) =
            (on_error e,
             [\<lparr>arg_model = modelName gm (property b (ascii ''model'')),
               arg_system = property b (ascii ''systemPrompt''),
               arg_prompt = the (property b (ascii ''prompt''))\<rparr>])"
    using POST_upstream_call [of b gm gen] by (simp add: Let_def)
  have 3: "POST gm gen (Inl e) = (on_error e, [])" by (rule POST_request_throws)
  have 4: "on_error (ThrownError m) =
         json_response 500
           (ErrorBody (if js_includes m (ascii ''API key'')
                       then ascii ''Google API key not configured. Set GOOGLE_GENERATIVE_AI_API_KEY environment variable.''
                       else m))"
    by (simp add: on_error_def)
  have 5: "on_error ThrownOther = json_response 500 (ErrorBody (ascii ''An unexpected error occurred''))"
    by (simp add: on_error_def)
  from 1 2 3 4 5 show ?thesis by blast
qed

text \<open>
  The upstream of the witness throws only for the default model name, as an unset
  credential makes it do; with another model it answers.
\<close>

theorem POST_responses_witness:
  "POST None (\<lambda>a. Inl (ThrownError (ascii ''quota exceeded''))) (Inr (JObject []))
     = (json_response 400 (ErrorBody (ascii ''Prompt is required'')), [])
   \<and> POST None
        (\<lambda>a. if arg_model a = JString (ascii ''gemini-2.5-flash-lite'')
              then Inl (ThrownError (ascii ''Google Generative AI API key is missing.''))
              else Inr \<lparr>result_text = ascii ''ok'', result_usage = None,
                        result_finishReason = ascii ''stop''\<rparr>)
        (Inr (JObject [(ascii ''prompt'', JString (ascii ''Hello''))]))
     = (json_response 500
          (ErrorBody (ascii ''Google API key not configured. Set GOOGLE_GENERATIVE_AI_API_KEY environment variable.'')),
        [\<lparr>arg_model = JString (ascii ''gemini-2.5-flash-lite''), arg_system = None,
          arg_prompt = JString (ascii ''Hello'')\<rparr>])
   \<and> POST None (\<lambda>a. Inl (ThrownError (ascii ''quota exceeded'')))
        (Inr (JObject [(ascii ''prompt'', JString (ascii ''Hello''))]))
     = (json_response 500 (ErrorBody (ascii ''quota exceeded'')),
        [\<lparr>arg_model = JString (ascii ''gemini-2.5-flash-lite''), arg_system = None,
          arg_prompt = JString (ascii ''Hello'')\<rparr>])
   \<and> POST None (\<lambda>a. Inl ThrownOther)
        (Inr (JObject [(ascii ''prompt'', JString (ascii ''Hello''))]))
     = (json_response 500 (ErrorBody (ascii ''An unexpected error occurred'')),
        [\<lparr>arg_model = JString (ascii ''gemini-2.5-flash-lite''), arg_system = None,
          arg_prompt = JString (ascii ''Hello'')\<rparr>])
   \<and> POST None (\<lambda>a. Inl ThrownOther) (Inl (ThrownError (ascii ''Unexpected end of JSON input'')))
     = (json_response 500 (ErrorBody (ascii ''Unexpected end of JSON input'')), [])"
proof -
  let ?b = "JObject [(ascii ''prompt'', JString (ascii ''Hello''))]"
  let ?args = "\<lparr>arg_model = JString (ascii ''gemini-2.5-flash-lite''), arg_system = None,
                 arg_prompt = JString (ascii ''Hello'')\<rparr>"
  let ?key = "\<lambda>a. if arg_model a = JString (ascii ''gemini-2.5-flash-lite'')
              then Inl (ThrownError (ascii ''Google Generative AI API key is missing.''))
              else Inr \<lparr>result_text = ascii ''ok'', result_usage = None,
                        result_finishReason = ascii ''stop''\<rparr>"
  have m: "JObject [] \<noteq> JNull" "\<not> js_truthy (property (JObject []) (ascii ''prompt''))"
    by (simp_all add: property_def js_truthy_def)
  have h: "?b \<noteq> JNull" "js_truthy (property ?b (ascii ''prompt''))"
    by (simp_all add: property_def js_truthy_def ascii_def)
  have a: "\<lparr>arg_model = modelName None (property ?b (ascii ''model'')),
             arg_system = property ?b (ascii ''systemPrompt''),
             arg_prompt = the (property ?b (ascii ''prompt''))\<rparr> = ?args"
    by (simp add: property_def modelName_def js_truthy_def truthy_def ascii_def)
  have i: "\<not> js_includes (ascii ''quota exceeded'') (ascii ''API key'')"
    "js_includes (ascii ''Google Generative AI API key is missing.'') (ascii ''API key'')"
    "\<not> js_includes (ascii ''Unexpected end of JSON input'') (ascii ''API key'')"
    by (simp_all add: ascii_def)
  have k: "?key ?args = Inl (ThrownError (ascii ''Google Generative AI API key is missing.''))"
    by simp
  note t1 = POST_responses [of "JObject []" None "\<lambda>a. Inl (ThrownError (ascii ''quota exceeded''))"]
  note t2 = POST_responses [of ?b None ?key
              "ThrownError (ascii ''Google Generative AI API key is missing.'')"
              "ascii ''Google Generative AI API key is missing.''"]
  note t3 = POST_responses [of ?b None "\<lambda>a. Inl (ThrownError (ascii ''quota exceeded''))"
              "ThrownError (ascii ''quota exceeded'')" "ascii ''quota exceeded''"]
  note t4 = POST_responses [of ?b None "\<lambda>a. Inl ThrownOther" ThrownOther]
  note t5 = POST_responses [of ?b None "\<lambda>a. Inl ThrownOther"
              "ThrownError (ascii ''Unexpected end of JSON input'')"
              "ascii ''Unexpected end of JSON input''"]
  have c1: "POST None (\<lambda>a. Inl (ThrownError (ascii ''quota exceeded''))) (Inr (JObject []))
     = (json_response 400 (ErrorBody (ascii ''Prompt is required'')), [])"
    using t1 m by blast
  have c2: "POST None ?key (Inr ?b) =
      (json_response 500
          (ErrorBody (ascii ''Google API key not configured. Set GOOGLE_GENERATIVE_AI_API_KEY environment variable.'')),
        [?args])"
    using t2 h k i(2) unfolding a by simp
  have c3: "POST None (\<lambda>a. Inl (ThrownError (ascii ''quota exceeded''))) (Inr ?b)
     = (json_response 500 (ErrorBody (ascii ''quota exceeded'')), [?args])"
    using t3 h i(1) unfolding a by simp
  have c4: "POST None (\<lambda>a. Inl ThrownOther) (Inr ?b)
     = (json_response 500 (ErrorBody (ascii ''An unexpected error occurred'')), [?args])"
    using t4 h unfolding a by simp
  have c5: "POST None (\<lambda>a. Inl ThrownOther) (Inl (ThrownError (ascii ''Unexpected end of JSON input'')))
     = (json_response 500 (ErrorBody (ascii ''Unexpected end of JSON input'')), [])"
    using t5 i(3) by simp
  from c1 c2 c3 c4 c5 show ?thesis by blast
qed

section \<open>Properties of the remote-work line\<close>

lemma counts_le: "remoteJobsCount jobs \<le> totalJobsCount jobs"
  by (simp add: remoteJobsCount_def totalJobsCount_def split: option.splits)

lemma percent_bounds:
  assumes "r \<le> t" and "0 < t"
  shows "0 \<le> \<lfloor>(of_nat r :: rat) / of_nat t * 100 + 1 / 2\<rfloor>"
    and "\<lfloor>(of_nat r :: rat) / of_nat t * 100 + 1 / 2\<rfloor> \<le> 100"
proof -
  let ?q = "(of_nat r :: rat) / of_nat t * 100"
  have "0 \<le> ?q" by simp
  then show "0 \<le> \<lfloor>?q + 1 / 2\<rfloor>" by simp
  have "(of_nat r :: rat) / of_nat t \<le> 1" using assms by simp
  then have "(of_nat r :: rat) / of_nat t * 100 \<le> 1 * 100"
    by (rule mult_right_mono) simp
  then have "?q \<le> 100" by simp
  then have "?q + 1 / 2 < 101" by simp
  then have "\<lfloor>?q + 1 / 2\<rfloor> < 101" by (simp add: floor_less_iff)
  then show "\<lfloor>?q + 1 / 2\<rfloor> \<le> 100" by simp
qed

lemma unguarded_is_NaN:
  "Math_round (js_mul (js_div (Finite (of_nat 0)) (Finite (of_nat 0))) (Finite 100)) = NaN"
  by simp

text \<open>
  C10. The percentage is never \<open>NaN\<close>: for every list of jobs, missing or not, it is a
  whole number between 0 and 100, and the line of the prompt prints its digits. It is 0
  when the list is missing or empty, and \<open>Math.round(remoteJobsCount / totalJobsCount * 100)\<close>
  otherwise, the division then having a divisor that is not zero.
\<close>

theorem remoteExperiencePercent_well_defined:
  "(\<exists>k\<le>100. remoteExperiencePercent jobs = Finite (of_nat k)
        \<and> remoteWorkLine jobs =
            ascii ''**Remote Work Experience:** '' @ show_nat (remoteJobsCount jobs)
              @ ascii '' out of '' @ show_nat (totalJobsCount jobs)
              @ ascii '' positions ('' @ show_nat k @ ascii ''%)'')
   \<and> (jobs = None \<or> jobs = Some [] \<longrightarrow> remoteExperiencePercent jobs = Finite 0)
   \<and> (0 < totalJobsCount jobs \<longrightarrow>
        remoteExperiencePercent jobs =
          Math_round (js_mul (js_div (Finite (of_nat (remoteJobsCount jobs)))
                                     (Finite (of_nat (totalJobsCount jobs))))
                             (Finite 100)))"
proof -
  let ?r = "remoteJobsCount jobs" and ?t = "totalJobsCount jobs"
  let ?f = "\<lfloor>(of_nat ?r :: rat) / of_nat ?t * 100 + 1 / 2\<rfloor>"
  have pos: "0 < ?t \<Longrightarrow> remoteExperiencePercent jobs = Finite (of_int ?f)"
    by (simp add: remoteExperiencePercent_def)
  have zero: "jobs = None \<or> jobs = Some [] \<Longrightarrow> remoteExperiencePercent jobs = Finite 0"
    by (auto simp add: remoteExperiencePercent_def totalJobsCount_def)
  have ex: "\<exists>k\<le>100. remoteExperiencePercent jobs = Finite (of_nat k)"
  proof (cases "0 < ?t")
    case True
    define f where "f = ?f"
    have b: "0 \<le> f" "f \<le> 100"
      unfolding f_def by (rule percent_bounds [OF counts_le True])+
    then have "nat f \<le> 100" "(of_int f :: rat) = of_nat (nat f)" by simp_all
    moreover have "remoteExperiencePercent jobs = Finite (of_int f)"
      unfolding f_def by (rule pos [OF True])
    ultimately show ?thesis by metis
  next
    case False
    then have "remoteExperiencePercent jobs = Finite (of_nat 0)"
      by (simp add: remoteExperiencePercent_def)
    then show ?thesis by blast
  qed
  then obtain k where k: "k \<le> 100" "remoteExperiencePercent jobs = Finite (of_nat k)" by blast
  then have "show_jsnum (remoteExperiencePercent jobs) = show_nat k"
    by (simp add: show_jsnum_def)
  with k have "\<exists>k\<le>100. remoteExperiencePercent jobs = Finite (of_nat k)
        \<and> remoteWorkLine jobs =
            ascii ''**Remote Work Experience:** '' @ show_nat (remoteJobsCount jobs)
              @ ascii '' out of '' @ show_nat (totalJobsCount jobs)
              @ ascii '' positions ('' @ show_nat k @ ascii ''%)''"
    unfolding remoteWorkLine_def by blast
  moreover have "0 < ?t \<Longrightarrow> remoteExperiencePercent jobs =
          Math_round (js_mul (js_div (Finite (of_nat ?r)) (Finite (of_nat ?t))) (Finite 100))"
    by (simp add: remoteExperiencePercent_def)
  ultimately show ?thesis using zero by blast
qed

theorem remoteExperiencePercent_well_defined_witness:
  "remoteExperiencePercent (Some three_jobs) = Finite 33
   \<and> remoteWorkLine (Some three_jobs) = ascii ''**Remote Work Experience:** 1 out of 3 positions (33%)''
   \<and> remoteExperiencePercent (Some []) = Finite 0
   \<and> remoteExperiencePercent None = Finite 0"
proof -
  have c: "remoteJobsCount (Some three_jobs) = 1" "totalJobsCount (Some three_jobs) = 3"
    by (simp_all add: remoteJobsCount_def totalJobsCount_def three_jobs_def)
  have f: "\<lfloor>(of_nat 1 :: rat) / of_nat 3 * 100 + 1 / 2\<rfloor> = 33"
    by (simp add: floor_eq_iff)
  note t = remoteExperiencePercent_well_defined [of "Some three_jobs"]
  from t c f have p: "remoteExperiencePercent (Some three_jobs) = Finite 33" by simp
  from t obtain k where k: "remoteExperiencePercent (Some three_jobs) = Finite (of_nat k)"
      "remoteWorkLine (Some three_jobs) =
            ascii ''**Remote Work Experience:** '' @ show_nat (remoteJobsCount (Some three_jobs))
              @ ascii '' out of '' @ show_nat (totalJobsCount (Some three_jobs))
              @ ascii '' positions ('' @ show_nat k @ ascii ''%)''"
    by blast
  from k(1) p have "(of_nat k :: rat) = of_nat 33" by simp
  then have "k = 33" by (simp only: of_nat_eq_iff)
  with k(2) c have l: "remoteWorkLine (Some three_jobs)
      = ascii ''**Remote Work Experience:** 1 out of 3 positions (33%)''"
    by (simp add: show_nat.simps ascii_def)
  from remoteExperiencePercent_well_defined [of "Some []"]
  have e: "remoteExperiencePercent (Some []) = Finite 0" by simp
  from remoteExperiencePercent_well_defined [of None]
  have n: "remoteExperiencePercent None = Finite 0" by simp
  from p l e n show ?thesis by simp
qed

end
